theory Spec2Isabelle
  imports Main "HOL-Library.AList" "HOL-Library.Char_ord" "HOL-Library.List_Lexorder"
begin

section \<open>Control flow graphs of package cfg\<close>

text \<open>
  The Go package keeps nodes behind pointers (\<open>*Node\<close>): the graph, its name index and
  its entry field all refer to the same node object, and \<open>SetEntry\<close>, \<open>InitDFSOrder\<close>
  and \<open>Node.Attributes\<close> write through the pointer. The model therefore has an explicit
  store of node objects; a pointer is an address into it.
\<close>

subsection \<open>Data model\<close>

type_synonym addr = nat

text \<open>\<open>type Attrs map[string]string\<close>: an association list read through \<open>map_of\<close>.\<close>

type_synonym Attrs = "(string \<times> string) list"

text \<open>
  \<open>type Node struct\<close>. \<open>n_id\<close> is the embedded \<open>graph.Node\<close> (its \<open>ID()\<close>). The
  structuring annotations (\<open>NBackEdges\<close>, \<open>LoopHead\<close>, ...) are not read or written by
  any function modelled here and are left out.
\<close>

record Node =
  n_id :: int
  n_name :: string
  n_entry :: bool
  n_Pre :: int
  n_RevPost :: int
  n_Attrs :: Attrs

record heap =
  cell :: "addr \<Rightarrow> Node"
  next_addr :: addr

text \<open>\<open>type Edge struct\<close>: the embedded \<open>graph.Edge\<close> (its \<open>From()\<close> and \<open>To()\<close>) and \<open>Attrs\<close>.\<close>

record Edge =
  e_from :: addr
  e_to :: addr
  e_Attrs :: Attrs

text \<open>
  \<open>type Graph struct\<close>. The embedded \<open>*simple.DirectedGraph\<close> is the two fields
  \<open>dg_nodes\<close> (node ID to node) and \<open>dg_edges\<close> (pair of node IDs to edge); \<open>g_nodes\<close> is
  the field \<open>nodes\<close>, the name index.
\<close>

record Graph =
  dg_nodes :: "(int \<times> addr) list"
  dg_edges :: "((int \<times> int) \<times> Edge) list"
  g_id :: string
  g_entry :: "addr option"
  g_nodes :: "string \<rightharpoonup> addr"

text \<open>Every \<open>panic\<close> of the package is a value of this type.\<close>

datatype error =
    EmptyNodeName
  | EntryAlreadyPresent
  | EntryAlreadySet
  | NodeNameAlreadyPresent string
  | MissingNodeName
  | NodeIDCollision
  | InvalidSuccessorCount nat
  | UnableToLocateNode string
  | UnableToLocateEntry
  | InvalidNodeType
  | InvalidEdgeType
  | InvalidEntryLabel string

text \<open>What \<open>warn.Printf\<close> writes in \<open>TrueTarget\<close> and \<open>FalseTarget\<close>: the two labels found.\<close>

datatype diagnostic =
    UnableToLocateTrueBranch string string
  | UnableToLocateFalseBranch string string

subsection \<open>The embedded simple.DirectedGraph\<close>

text \<open>
  Modelled from the spec: \<open>simple.DirectedGraph\<close> (github.com/graphism/simple) is imported
  by graph.go and is not part of the sources. Its operations follow section 4.1 of the
  specification and the doc comments of the methods of \<open>Graph\<close> that wrap them: adding a
  node whose ID is taken panics, removing an absent node is a no-op, removing a node
  removes the edges attached to it, there is at most one edge per ordered pair of IDs.
  The order in which \<open>Nodes\<close>, \<open>From\<close> and \<open>To\<close> list their results is the order of the
  two lists; the package makes no assumption on it.
\<close>

definition Has :: "Graph \<Rightarrow> int \<Rightarrow> bool" where
  "Has g i = (map_of (dg_nodes g) i \<noteq> None)"

definition dg_AddNode :: "Graph \<Rightarrow> int \<Rightarrow> addr \<Rightarrow> error + Graph" where
  "dg_AddNode g i n =
     (if Has g i then Inl NodeIDCollision
      else Inr (g\<lparr>dg_nodes := dg_nodes g @ [(i, n)]\<rparr>))"

definition dg_RemoveNode :: "Graph \<Rightarrow> int \<Rightarrow> Graph" where
  "dg_RemoveNode g i =
     (if \<not> Has g i then g
      else g\<lparr>dg_nodes := AList.delete i (dg_nodes g),
             dg_edges := filter (\<lambda>((u, v), e). u \<noteq> i \<and> v \<noteq> i) (dg_edges g)\<rparr>)"

definition dg_SetEdge :: "Graph \<Rightarrow> int \<Rightarrow> int \<Rightarrow> Edge \<Rightarrow> Graph" where
  "dg_SetEdge g u v e = g\<lparr>dg_edges := AList.update (u, v) e (dg_edges g)\<rparr>"

definition Nodes :: "Graph \<Rightarrow> addr list" where
  "Nodes g = map snd (dg_nodes g)"

definition From :: "Graph \<Rightarrow> int \<Rightarrow> addr list" where
  "From g i = map (e_to \<circ> snd) (filter (\<lambda>((u, v), e). u = i) (dg_edges g))"

definition To :: "Graph \<Rightarrow> int \<Rightarrow> addr list" where
  "To g i = map (e_from \<circ> snd) (filter (\<lambda>((u, v), e). v = i) (dg_edges g))"

definition EdgeOf :: "Graph \<Rightarrow> int \<Rightarrow> int \<Rightarrow> Edge option" where
  "EdgeOf g u v = map_of (dg_edges g) (u, v)"

subsection \<open>graph.go: Graph\<close>

definition NewGraph :: Graph where
  "NewGraph = \<lparr>dg_nodes = [], dg_edges = [], g_id = [], g_entry = None, g_nodes = Map.empty\<rparr>"

text \<open>\<open>Graph.SetEntry\<close>.\<close>

definition SetEntry :: "heap \<Rightarrow> Graph \<Rightarrow> addr \<Rightarrow> error + (heap \<times> Graph)" where
  "SetEntry h g n =
     (if g_entry g \<noteq> None then Inl EntryAlreadyPresent
      else Inr (h\<lparr>cell := (cell h)(n := (cell h n)\<lparr>n_entry := True\<rparr>)\<rparr>,
                g\<lparr>g_entry := Some n\<rparr>))"

text \<open>
  \<open>Graph.NewNode\<close> allocates a node object whose ID is the one the embedded graph hands
  out. Which unused ID that is belongs to the library, so the allocator is the parameter
  \<open>alloc\<close>, applied to the IDs in use.
\<close>

definition NewNode :: "(int list \<Rightarrow> int) \<Rightarrow> heap \<Rightarrow> Graph \<Rightarrow> heap \<times> addr" where
  "NewNode alloc h g =
     (let a = next_addr h;
          n = \<lparr>n_id = alloc (map fst (dg_nodes g)), n_name = [], n_entry = False,
               n_Pre = 0, n_RevPost = 0, n_Attrs = []\<rparr>
      in (h\<lparr>cell := (cell h)(a := n), next_addr := Suc a\<rparr>, a))"

text \<open>\<open>Graph.NewNodeWithName\<close>.\<close>

definition NewNodeWithName ::
  "(int list \<Rightarrow> int) \<Rightarrow> heap \<Rightarrow> Graph \<Rightarrow> string \<Rightarrow> error + (heap \<times> addr)" where
  "NewNodeWithName alloc h g name =
     (if length name = 0 then Inl EmptyNodeName
      else (case NewNode alloc h g of
              (h1, nn) \<Rightarrow>
                Inr (h1\<lparr>cell := (cell h1)(nn := (cell h1 nn)\<lparr>n_name := name\<rparr>)\<rparr>, nn)))"

text \<open>\<open>Graph.NodeWithName\<close> and the panicking \<open>Graph.nodeWithName\<close>.\<close>

definition NodeWithName :: "Graph \<Rightarrow> string \<Rightarrow> addr option" where
  "NodeWithName g name = g_nodes g name"

definition nodeWithName :: "Graph \<Rightarrow> string \<Rightarrow> error + addr" where
  "nodeWithName g name =
     (case g_nodes g name of None \<Rightarrow> Inl (UnableToLocateNode name) | Some n \<Rightarrow> Inr n)"

text \<open>\<open>Graph.AddNode\<close>.\<close>

definition AddNode :: "heap \<Rightarrow> Graph \<Rightarrow> addr \<Rightarrow> error + Graph" where
  "AddNode h g n =
     (let nn = cell h n in
      case dg_AddNode g (n_id nn) n of
        Inl err \<Rightarrow> Inl err
      | Inr g1 \<Rightarrow>
          if n_entry nn \<and> g_entry g1 \<noteq> None \<and> g_entry g1 \<noteq> Some n then Inl EntryAlreadySet
          else
            let g2 = (if n_entry nn then g1\<lparr>g_entry := Some n\<rparr> else g1) in
            if length (n_name nn) > 0 then
              (case g_nodes g2 (n_name nn) of
                 Some prev \<Rightarrow>
                   if n \<noteq> prev then Inl (NodeNameAlreadyPresent (n_name nn))
                   else Inr (g2\<lparr>g_nodes := (g_nodes g2)(n_name nn \<mapsto> n)\<rparr>)
               | None \<Rightarrow> Inr (g2\<lparr>g_nodes := (g_nodes g2)(n_name nn \<mapsto> n)\<rparr>))
            else Inr g2)"

text \<open>\<open>Graph.RemoveNode\<close>.\<close>

definition RemoveNode :: "heap \<Rightarrow> Graph \<Rightarrow> addr \<Rightarrow> Graph" where
  "RemoveNode h g n =
     (let g1 = dg_RemoveNode g (n_id (cell h n));
          nn = cell h n;
          g2 = g1\<lparr>g_nodes := (g_nodes g1)(n_name nn := None)\<rparr>
      in if n_entry nn then g2\<lparr>g_entry := None\<rparr> else g2)"

text \<open>\<open>Graph.NewEdge\<close> and \<open>Graph.SetEdge\<close>.\<close>

definition NewEdge :: "addr \<Rightarrow> addr \<Rightarrow> Edge" where
  "NewEdge from to = \<lparr>e_from = from, e_to = to, e_Attrs = []\<rparr>"

definition SetEdge :: "heap \<Rightarrow> Graph \<Rightarrow> Edge \<Rightarrow> error + Graph" where
  "SetEdge h g ee =
     (let from = e_from ee; to = e_to ee in
      case (if \<not> Has g (n_id (cell h from)) then AddNode h g from else Inr g) of
        Inl err \<Rightarrow> Inl err
      | Inr g1 \<Rightarrow>
          (case (if \<not> Has g1 (n_id (cell h to)) then AddNode h g1 to else Inr g1) of
             Inl err \<Rightarrow> Inl err
           | Inr g2 \<Rightarrow> Inr (dg_SetEdge g2 (n_id (cell h from)) (n_id (cell h to)) ee)))"

text \<open>\<open>e.Attrs["label"]\<close>: a missing key reads as the empty string.\<close>

definition attr_get :: "Attrs \<Rightarrow> string \<Rightarrow> string" where
  "attr_get a k = (case map_of a k of None \<Rightarrow> [] | Some v \<Rightarrow> v)"

text \<open>
  \<open>Graph.TrueTarget\<close> and \<open>Graph.FalseTarget\<close>. \<open>edge(g.Edge(...))\<close> panics when the
  embedded graph has no such edge. The result carries the diagnostics written to \<open>warn\<close>.
\<close>

definition TrueTarget :: "heap \<Rightarrow> Graph \<Rightarrow> addr \<Rightarrow> error + (addr \<times> diagnostic list)" where
  "TrueTarget h g n =
     (let succs = From g (n_id (cell h n)) in
      if length succs \<noteq> 2 then Inl (InvalidSuccessorCount (length succs))
      else
        let succ1 = succs ! 0; succ2 = succs ! 1 in
        case EdgeOf g (n_id (cell h n)) (n_id (cell h succ1)) of
          None \<Rightarrow> Inl InvalidEdgeType
        | Some e1 \<Rightarrow>
            (case EdgeOf g (n_id (cell h n)) (n_id (cell h succ2)) of
               None \<Rightarrow> Inl InvalidEdgeType
             | Some e2 \<Rightarrow>
                 let e1Label = attr_get (e_Attrs e1) ''label'';
                     e2Label = attr_get (e_Attrs e2) ''label''
                 in if e1Label = ''true'' \<and> e2Label = ''false'' then Inr (succ1, [])
                    else if e1Label = ''false'' \<and> e2Label = ''true'' then Inr (succ2, [])
                    else Inr (succ1, [UnableToLocateTrueBranch e1Label e2Label])))"

definition FalseTarget :: "heap \<Rightarrow> Graph \<Rightarrow> addr \<Rightarrow> error + (addr \<times> diagnostic list)" where
  "FalseTarget h g n =
     (let succs = From g (n_id (cell h n)) in
      if length succs \<noteq> 2 then Inl (InvalidSuccessorCount (length succs))
      else
        let succ1 = succs ! 0; succ2 = succs ! 1 in
        case EdgeOf g (n_id (cell h n)) (n_id (cell h succ1)) of
          None \<Rightarrow> Inl InvalidEdgeType
        | Some e1 \<Rightarrow>
            (case EdgeOf g (n_id (cell h n)) (n_id (cell h succ2)) of
               None \<Rightarrow> Inl InvalidEdgeType
             | Some e2 \<Rightarrow>
                 let e1Label = attr_get (e_Attrs e1) ''label'';
                     e2Label = attr_get (e_Attrs e2) ''label''
                 in if e1Label = ''true'' \<and> e2Label = ''false'' then Inr (succ2, [])
                    else if e1Label = ''false'' \<and> e2Label = ''true'' then Inr (succ1, [])
                    else Inr (succ1, [UnableToLocateFalseBranch e1Label e2Label])))"

subsection \<open>graph.go: attributes\<close>

text \<open>
  \<open>strings.HasPrefix\<close>, and \<open>strings.Contains(s, " ")\<close> for the one-character
  substring the package asks about.
\<close>

definition HasPrefix :: "string \<Rightarrow> string \<Rightarrow> bool" where
  "HasPrefix s p = (take (length p) s = p)"

definition ContainsSpace :: "string \<Rightarrow> bool" where
  "ContainsSpace s = (CHR '' '' \<in> set s)"

definition dquote :: char where
  "dquote = CHR 0x22"

text \<open>
  \<open>Attrs.Attributes\<close>. An \<open>encoding.Attribute\<close> is the pair of its \<open>Key\<close> and \<open>Value\<close>.
  \<open>sort.Strings\<close> orders byte strings lexicographically, which is the order of
  \<open>char list\<close> here. \<open>strconv.Quote\<close> belongs to the Go standard library and is the
  parameter \<open>Quote\<close>.
\<close>

definition Attrs_Attributes :: "(string \<Rightarrow> string) \<Rightarrow> Attrs \<Rightarrow> (string \<times> string) list" where
  "Attrs_Attributes Quote a =
     (let keys = sort (remdups (map fst a)) in
      map (\<lambda>key.
             let s = attr_get a key in
             if key = ''label'' \<and> ContainsSpace s \<and> \<not> HasPrefix s [dquote]
             then (key, Quote s) else (key, s))
          keys)"

text \<open>\<open>Edge.Attributes\<close> and \<open>Edge.SetAttribute\<close>.\<close>

definition Edge_Attributes :: "(string \<Rightarrow> string) \<Rightarrow> Edge \<Rightarrow> (string \<times> string) list" where
  "Edge_Attributes Quote e = Attrs_Attributes Quote (e_Attrs e)"

definition Edge_SetAttribute :: "Edge \<Rightarrow> string \<times> string \<Rightarrow> Edge" where
  "Edge_SetAttribute e attr = e\<lparr>e_Attrs := AList.update (fst attr) (snd attr) (e_Attrs e)\<rparr>"

text \<open>\<open>Node.Attributes\<close>: it writes the label of an entry node into the node object.\<close>

definition Node_Attributes ::
  "(string \<Rightarrow> string) \<Rightarrow> heap \<Rightarrow> addr \<Rightarrow> error + (heap \<times> (string \<times> string) list)" where
  "Node_Attributes Quote h n =
     (let nn = cell h n in
      if n_entry nn then
        (case map_of (n_Attrs nn) ''label'' of
           Some prev \<Rightarrow>
             if prev \<noteq> ''entry'' then Inl (InvalidEntryLabel prev)
             else
               let a1 = AList.update ''label'' ''entry'' (n_Attrs nn) in
               Inr (h\<lparr>cell := (cell h)(n := nn\<lparr>n_Attrs := a1\<rparr>)\<rparr>, Attrs_Attributes Quote a1)
         | None \<Rightarrow>
             let a1 = AList.update ''label'' ''entry'' (n_Attrs nn) in
             Inr (h\<lparr>cell := (cell h)(n := nn\<lparr>n_Attrs := a1\<rparr>)\<rparr>, Attrs_Attributes Quote a1))
      else Inr (h, Attrs_Attributes Quote (n_Attrs nn)))"

text \<open>\<open>Node.SetAttribute\<close>; it returns a nil error on every path that returns.\<close>

definition Node_SetAttribute :: "heap \<Rightarrow> addr \<Rightarrow> string \<times> string \<Rightarrow> error + heap" where
  "Node_SetAttribute h n attr =
     (let nn = cell h n in
      if fst attr = ''label'' \<and> snd attr = ''entry'' then
        (case map_of (n_Attrs nn) ''label'' of
           Some prev \<Rightarrow>
             if prev \<noteq> ''entry'' then Inl (InvalidEntryLabel prev)
             else Inr (h\<lparr>cell := (cell h)(n := nn\<lparr>n_entry := True\<rparr>)\<rparr>)
         | None \<Rightarrow> Inr (h\<lparr>cell := (cell h)(n := nn\<lparr>n_entry := True\<rparr>)\<rparr>))
      else
        Inr (h\<lparr>cell := (cell h)(n := nn\<lparr>n_Attrs := AList.update (fst attr) (snd attr) (n_Attrs nn)\<rparr>)\<rparr>))"

text \<open>\<open>Node.SetDOTID\<close> and \<open>Node.DOTID\<close>.\<close>

definition Node_SetDOTID :: "heap \<Rightarrow> addr \<Rightarrow> string \<Rightarrow> heap" where
  "Node_SetDOTID h n ident = h\<lparr>cell := (cell h)(n := (cell h n)\<lparr>n_name := ident\<rparr>)\<rparr>"

definition DOTID :: "heap \<Rightarrow> addr \<Rightarrow> string" where
  "DOTID h n = n_name (cell h n)"


text \<open>
  \<open>Graph.initNodes\<close>: the loop over \<open>g.Nodes()\<close>, one node per step.
\<close>

fun initNodes_loop :: "heap \<Rightarrow> Graph \<Rightarrow> addr list \<Rightarrow> error + Graph" where
  "initNodes_loop h g [] = Inr g"
| "initNodes_loop h g (n # ns) =
     (let nn = cell h n in
      if length (n_name nn) = 0 then Inl MissingNodeName
      else
        (case g_nodes g (n_name nn) of
           Some prev \<Rightarrow>
             if n \<noteq> prev then Inl (NodeNameAlreadyPresent (n_name nn))
             else initNodes_loop h (g\<lparr>g_nodes := (g_nodes g)(n_name nn \<mapsto> n)\<rparr>) ns
         | None \<Rightarrow> initNodes_loop h (g\<lparr>g_nodes := (g_nodes g)(n_name nn \<mapsto> n)\<rparr>) ns))"

definition initNodes :: "heap \<Rightarrow> Graph \<Rightarrow> error + Graph" where
  "initNodes h g = initNodes_loop h g (Nodes g)"


subsection \<open>decode.go\<close>

text \<open>The loop of \<open>ParseBytes\<close> over \<open>g.Nodes()\<close> that looks for nodes marked as entry.\<close>

fun entry_loop :: "heap \<Rightarrow> Graph \<Rightarrow> addr list \<Rightarrow> error + Graph" where
  "entry_loop h g [] = Inr g"
| "entry_loop h g (n # ns) =
     (if n_entry (cell h n) then
        (if g_entry g \<noteq> None \<and> g_entry g \<noteq> Some n then Inl EntryAlreadySet
         else entry_loop h (g\<lparr>g_entry := Some n\<rparr>) ns)
      else entry_loop h g ns)"

text \<open>The name \<open>ParseBytes\<close> falls back to: the Go raw string with its two quote characters.\<close>

definition name_0 :: string where
  "name_0 = [dquote, CHR ''0'', dquote]"

text \<open>
  \<open>ParseBytes\<close>. \<open>dot.Unmarshal\<close> (gonum) is the parameter \<open>Unmarshal\<close>: given the bytes,
  the store and the fresh graph it either panics (\<open>Inl\<close>, through the builder methods it
  calls), returns an error (\<open>Inr (Inl err)\<close>) or returns with the store and the graph
  filled in. The result of \<open>ParseBytes\<close> keeps the three outcomes apart: \<open>Inl\<close> is a
  panic, \<open>Inr (Inl err)\<close> is the returned \<open>(nil, err)\<close>, \<open>Inr (Inr (h, g))\<close> is \<open>(g, nil)\<close>.
\<close>

type_synonym 'a returned = "string + 'a"

definition ParseBytes ::
  "(string \<Rightarrow> heap \<Rightarrow> Graph \<Rightarrow> error + (heap \<times> Graph) returned) \<Rightarrow> heap \<Rightarrow> string
     \<Rightarrow> error + (heap \<times> Graph) returned" where
  "ParseBytes Unmarshal h b =
     (case Unmarshal b h NewGraph of
        Inl p \<Rightarrow> Inl p
      | Inr (Inl err) \<Rightarrow> Inr (Inl err)
      | Inr (Inr (h1, g)) \<Rightarrow>
          (case initNodes h1 g of
             Inl p \<Rightarrow> Inl p
           | Inr g1 \<Rightarrow>
               (case entry_loop h1 g1 (Nodes g1) of
                  Inl p \<Rightarrow> Inl p
                | Inr g2 \<Rightarrow>
                    if g_entry g2 = None then
                      (case NodeWithName g2 name_0 of
                         None \<Rightarrow> Inl UnableToLocateEntry
                       | Some n \<Rightarrow>
                           (case SetEntry h1 g2 n of
                              Inl p \<Rightarrow> Inl p
                            | Inr (h2, g3) \<Rightarrow> Inr (Inr (h2, g3))))
                    else Inr (Inr (h1, g2)))))"

subsection \<open>copy.go and Merge\<close>

text \<open>
  \<open>Copy\<close>: the loop that adds the nodes of \<open>src\<close>, the two nested loops that set the
  edges (for every node \<open>u\<close> of \<open>src\<close> and every \<open>v\<close> in \<open>src.From(u.ID())\<close> the edge
  \<open>src.Edge(u.ID(), v.ID())\<close>; \<open>SetEdge\<close> panics on a nil edge), then \<open>initNodes\<close>.
  Both versions of the file, with and without node iterators, are this function.
\<close>

fun Copy_nodes :: "heap \<Rightarrow> Graph \<Rightarrow> addr list \<Rightarrow> error + Graph" where
  "Copy_nodes h dst [] = Inr dst"
| "Copy_nodes h dst (n # ns) =
     (case AddNode h dst n of Inl p \<Rightarrow> Inl p | Inr dst1 \<Rightarrow> Copy_nodes h dst1 ns)"

fun Copy_edges_from :: "heap \<Rightarrow> Graph \<Rightarrow> Graph \<Rightarrow> addr \<Rightarrow> addr list \<Rightarrow> error + Graph" where
  "Copy_edges_from h dst src u [] = Inr dst"
| "Copy_edges_from h dst src u (v # vs) =
     (case EdgeOf src (n_id (cell h u)) (n_id (cell h v)) of
        None \<Rightarrow> Inl InvalidEdgeType
      | Some e \<Rightarrow>
          (case SetEdge h dst e of
             Inl p \<Rightarrow> Inl p
           | Inr dst1 \<Rightarrow> Copy_edges_from h dst1 src u vs))"

fun Copy_edges :: "heap \<Rightarrow> Graph \<Rightarrow> Graph \<Rightarrow> addr list \<Rightarrow> error + Graph" where
  "Copy_edges h dst src [] = Inr dst"
| "Copy_edges h dst src (u # us) =
     (case Copy_edges_from h dst src u (From src (n_id (cell h u))) of
        Inl p \<Rightarrow> Inl p
      | Inr dst1 \<Rightarrow> Copy_edges h dst1 src us)"

definition Copy :: "heap \<Rightarrow> Graph \<Rightarrow> Graph \<Rightarrow> error + Graph" where
  "Copy h dst src =
     (let dst0 = dst\<lparr>g_id := g_id src\<rparr>; nodes = Nodes src in
      case Copy_nodes h dst0 nodes of
        Inl p \<Rightarrow> Inl p
      | Inr dst1 \<Rightarrow>
          (case Copy_edges h dst1 src nodes of
             Inl p \<Rightarrow> Inl p
           | Inr dst2 \<Rightarrow> initNodes h dst2))"

text \<open>
  \<open>Merge\<close>. \<open>delNodes\<close> is a \<open>map[string]bool\<close>: an association list whose keys the
  outer loop ranges over in list order, and \<open>delNodes[name]\<close> is true only for a key
  stored with \<open>true\<close>. \<open>preds\<close> and \<open>succs\<close> are maps keyed by node pointer.
\<close>

definition delNodes_at :: "(string \<times> bool) list \<Rightarrow> string \<Rightarrow> bool" where
  "delNodes_at delNodes name = (map_of delNodes name = Some True)"

text \<open>The loop over \<open>dst.To(delNode.ID())\<close> that records the predecessors.\<close>

fun record_preds ::
  "heap \<Rightarrow> Graph \<Rightarrow> (string \<times> bool) list \<Rightarrow> addr \<Rightarrow> (addr \<times> Attrs) list \<Rightarrow> addr list
     \<Rightarrow> error + (addr \<times> Attrs) list" where
  "record_preds h dst delNodes delNode preds [] = Inr preds"
| "record_preds h dst delNodes delNode preds (p # ps) =
     (if \<not> delNodes_at delNodes (n_name (cell h p)) then
        (case nodeWithName dst (n_name (cell h p)) of
           Inl err \<Rightarrow> Inl err
         | Inr key \<Rightarrow>
             (case EdgeOf dst (n_id (cell h p)) (n_id (cell h delNode)) of
                None \<Rightarrow> Inl InvalidEdgeType
              | Some e \<Rightarrow>
                  record_preds h dst delNodes delNode (AList.update key (e_Attrs e) preds) ps))
      else record_preds h dst delNodes delNode preds ps)"

text \<open>The loop over \<open>dst.From(delNode.ID())\<close> that records the successors.\<close>

fun record_succs ::
  "heap \<Rightarrow> Graph \<Rightarrow> (string \<times> bool) list \<Rightarrow> (addr \<times> bool) list \<Rightarrow> addr list
     \<Rightarrow> error + (addr \<times> bool) list" where
  "record_succs h dst delNodes succs [] = Inr succs"
| "record_succs h dst delNodes succs (s # ss) =
     (if \<not> delNodes_at delNodes (n_name (cell h s)) then
        (case nodeWithName dst (n_name (cell h s)) of
           Inl err \<Rightarrow> Inl err
         | Inr key \<Rightarrow> record_succs h dst delNodes (AList.update key True succs) ss)
      else record_succs h dst delNodes succs ss)"

text \<open>The loop \<open>for delName := range delNodes\<close>.\<close>

fun Merge_loop ::
  "heap \<Rightarrow> Graph \<Rightarrow> (string \<times> bool) list \<Rightarrow> addr \<Rightarrow> (addr \<times> Attrs) list \<Rightarrow> (addr \<times> bool) list
     \<Rightarrow> string list \<Rightarrow> error + (heap \<times> Graph \<times> (addr \<times> Attrs) list \<times> (addr \<times> bool) list)" where
  "Merge_loop h dst delNodes newNode preds succs [] = Inr (h, dst, preds, succs)"
| "Merge_loop h dst delNodes newNode preds succs (delName # rest) =
     (case nodeWithName dst delName of
        Inl err \<Rightarrow> Inl err
      | Inr delNode \<Rightarrow>
          let h1 = (if n_entry (cell h delNode)
                    then h\<lparr>cell := (cell h)(newNode := (cell h newNode)\<lparr>n_entry := True\<rparr>)\<rparr>
                    else h)
          in case record_preds h1 dst delNodes delNode preds (To dst (n_id (cell h1 delNode))) of
               Inl err \<Rightarrow> Inl err
             | Inr preds1 \<Rightarrow>
                 (case record_succs h1 dst delNodes succs (From dst (n_id (cell h1 delNode))) of
                    Inl err \<Rightarrow> Inl err
                  | Inr succs1 \<Rightarrow>
                      Merge_loop h1 (RemoveNode h1 dst delNode) delNodes newNode preds1 succs1 rest))"

text \<open>The two loops that add the edges to and from the new node.\<close>

fun add_pred_edges :: "heap \<Rightarrow> Graph \<Rightarrow> addr \<Rightarrow> (addr \<times> Attrs) list \<Rightarrow> error + Graph" where
  "add_pred_edges h dst newNode [] = Inr dst"
| "add_pred_edges h dst newNode ((pred, attrs) # ps) =
     (case SetEdge h dst ((NewEdge pred newNode)\<lparr>e_Attrs := attrs\<rparr>) of
        Inl err \<Rightarrow> Inl err
      | Inr dst1 \<Rightarrow> add_pred_edges h dst1 newNode ps)"

fun add_succ_edges :: "heap \<Rightarrow> Graph \<Rightarrow> addr \<Rightarrow> (addr \<times> bool) list \<Rightarrow> error + Graph" where
  "add_succ_edges h dst newNode [] = Inr dst"
| "add_succ_edges h dst newNode ((succ, b) # ss) =
     (case SetEdge h dst (NewEdge newNode succ) of
        Inl err \<Rightarrow> Inl err
      | Inr dst1 \<Rightarrow> add_succ_edges h dst1 newNode ss)"

definition Merge ::
  "(int list \<Rightarrow> int) \<Rightarrow> heap \<Rightarrow> Graph \<Rightarrow> (string \<times> bool) list \<Rightarrow> string
     \<Rightarrow> error + (heap \<times> Graph)" where
  "Merge alloc h src delNodes newName =
     (case Copy h NewGraph src of
        Inl err \<Rightarrow> Inl err
      | Inr dst \<Rightarrow>
          (case NewNodeWithName alloc h dst newName of
             Inl err \<Rightarrow> Inl err
           | Inr (h1, newNode) \<Rightarrow>
               (case Merge_loop h1 dst delNodes newNode [] [] (map fst delNodes) of
                  Inl err \<Rightarrow> Inl err
                | Inr (h2, dst1, preds, succs) \<Rightarrow>
                    (case AddNode h2 dst1 newNode of
                       Inl err \<Rightarrow> Inl err
                     | Inr dst2 \<Rightarrow>
                         (case add_pred_edges h2 dst2 newNode preds of
                            Inl err \<Rightarrow> Inl err
                          | Inr dst3 \<Rightarrow>
                              (case add_succ_edges h2 dst3 newNode succs of
                                 Inl err \<Rightarrow> Inl err
                               | Inr dst4 \<Rightarrow> Inr (h2, dst4)))))))"

subsection \<open>util.go: InitDFSOrder\<close>

text \<open>
  \<open>sortByDOTID\<close>. Every element of the slice is a \<open>*Node\<close>, which has a \<open>DOTID\<close> method,
  so the flag \<open>dotIDs\<close> stays true and \<open>less\<close> compares DOT IDs. \<open>sort.Slice\<close> (Go
  standard library) and \<open>natsort.Less\<close> (bitbucket.org/zombiezen/cardcpx/natsort) are the
  parameters \<open>sort_Slice\<close> and \<open>natsort_Less\<close>.
\<close>

definition sortByDOTID ::
  "((addr \<Rightarrow> addr \<Rightarrow> bool) \<Rightarrow> addr list \<Rightarrow> addr list) \<Rightarrow> (string \<Rightarrow> string \<Rightarrow> bool)
     \<Rightarrow> heap \<Rightarrow> addr list \<Rightarrow> addr list" where
  "sortByDOTID sort_Slice natsort_Less h ns =
     sort_Slice (\<lambda>a b. natsort_Less (DOTID h a) (DOTID h b)) ns"

text \<open>
  The variables the closure \<open>walk\<close> shares with \<open>InitDFSOrder\<close>: the node objects it
  writes to, the map \<open>visited\<close>, and the counters \<open>first\<close> and \<open>last\<close>.
\<close>

record dfs_state =
  d_heap :: heap
  d_visited :: "addr set"
  d_first :: int
  d_last :: int

text \<open>
  The closure \<open>walk\<close> and its loop over the sorted successors. The recursion of the source
  has no bound of its own; the first argument is fuel, one unit per nested call, and
  \<open>None\<close> means that it ran out. The loop of \<open>InitDFSOrder\<close> over all nodes has the same
  body as the loop over the successors and is \<open>walk_each\<close> too.
\<close>

fun walk ::
  "nat \<Rightarrow> ((addr \<Rightarrow> addr \<Rightarrow> bool) \<Rightarrow> addr list \<Rightarrow> addr list) \<Rightarrow> (string \<Rightarrow> string \<Rightarrow> bool)
     \<Rightarrow> Graph \<Rightarrow> dfs_state \<Rightarrow> addr \<Rightarrow> dfs_state option"
and walk_each ::
  "nat \<Rightarrow> ((addr \<Rightarrow> addr \<Rightarrow> bool) \<Rightarrow> addr list \<Rightarrow> addr list) \<Rightarrow> (string \<Rightarrow> string \<Rightarrow> bool)
     \<Rightarrow> Graph \<Rightarrow> dfs_state \<Rightarrow> addr list \<Rightarrow> dfs_state option"
where
  "walk 0 sort_Slice natsort_Less g s n = None"
| "walk (Suc k) sort_Slice natsort_Less g s n =
     (let h = d_heap s;
          h1 = h\<lparr>cell := (cell h)(n := (cell h n)\<lparr>n_Pre := d_first s\<rparr>)\<rparr>;
          s1 = s\<lparr>d_heap := h1, d_first := d_first s + 1, d_visited := insert n (d_visited s)\<rparr>
      in case walk_each k sort_Slice natsort_Less g s1
                (sortByDOTID sort_Slice natsort_Less h1 (From g (n_id (cell h1 n)))) of
           None \<Rightarrow> None
         | Some s2 \<Rightarrow>
             let h2 = d_heap s2;
                 h3 = h2\<lparr>cell := (cell h2)(n := (cell h2 n)\<lparr>n_RevPost := d_last s2\<rparr>)\<rparr>
             in Some (s2\<lparr>d_heap := h3, d_last := d_last s2 - 1\<rparr>))"
| "walk_each k sort_Slice natsort_Less g s [] = Some s"
| "walk_each k sort_Slice natsort_Less g s (succ # succs) =
     (if succ \<notin> d_visited s then
        (case walk k sort_Slice natsort_Less g s succ of
           None \<Rightarrow> None
         | Some s' \<Rightarrow> walk_each k sort_Slice natsort_Less g s' succs)
      else walk_each k sort_Slice natsort_Less g s succs)"

text \<open>
  \<open>InitDFSOrder\<close>. \<open>walk(g.entry)\<close> panics in its type assertion when the graph has no
  entry. The result is \<open>None\<close> when the fuel ran out, else the panic or the store with
  the numbers written.
\<close>

definition InitDFSOrder ::
  "nat \<Rightarrow> ((addr \<Rightarrow> addr \<Rightarrow> bool) \<Rightarrow> addr list \<Rightarrow> addr list) \<Rightarrow> (string \<Rightarrow> string \<Rightarrow> bool)
     \<Rightarrow> heap \<Rightarrow> Graph \<Rightarrow> (error + heap) option" where
  "InitDFSOrder fuel sort_Slice natsort_Less h g =
     (let s0 = \<lparr>d_heap = h, d_visited = {}, d_first = 0,
                d_last = int (length (Nodes g)) - 1\<rparr>
      in case g_entry g of
           None \<Rightarrow> Some (Inl InvalidNodeType)
         | Some entry \<Rightarrow>
             (case walk fuel sort_Slice natsort_Less g s0 entry of
                None \<Rightarrow> None
              | Some s1 \<Rightarrow>
                  (case walk_each fuel sort_Slice natsort_Less g s1
                          (sortByDOTID sort_Slice natsort_Less (d_heap s1) (Nodes g)) of
                     None \<Rightarrow> None
                   | Some s2 \<Rightarrow> Some (Inr (d_heap s2)))))"

text \<open>
  What one call of \<open>walk\<close>, or one run of a loop around it, does to the shared variables
  from \<open>s\<close> to \<open>s'\<close>: the nodes visited in between are nodes of the graph, \<open>first\<close> went
  up and \<open>last\<close> went down by their number, their pre-order numbers are the values
  \<open>first\<close> ran through and their reverse post-order numbers the values \<open>last\<close> ran
  through, and nothing else was written.
\<close>

definition dfs_frame :: "Graph \<Rightarrow> dfs_state \<Rightarrow> dfs_state \<Rightarrow> bool" where
  "dfs_frame g s s' =
     (d_visited s \<subseteq> d_visited s' \<and> d_visited s' \<subseteq> set (Nodes g) \<and>
      d_first s' = d_first s + int (card (d_visited s' - d_visited s)) \<and>
      d_last s' = d_last s - int (card (d_visited s' - d_visited s)) \<and>
      (\<lambda>a. n_Pre (cell (d_heap s') a)) ` (d_visited s' - d_visited s) = {d_first s ..< d_first s'} \<and>
      (\<lambda>a. n_RevPost (cell (d_heap s') a)) ` (d_visited s' - d_visited s) = {d_last s' <.. d_last s} \<and>
      (\<forall>a. a \<notin> d_visited s' - d_visited s \<longrightarrow> cell (d_heap s') a = cell (d_heap s) a) \<and>
      (\<forall>a. cell (d_heap s') a =
             (cell (d_heap s) a)\<lparr>n_Pre := n_Pre (cell (d_heap s') a),
                                  n_RevPost := n_RevPost (cell (d_heap s') a)\<rparr>) \<and>
      next_addr (d_heap s') = next_addr (d_heap s))"

subsection \<open>Well-formedness and sample data\<close>

text \<open>
  The embedded graph files an edge under the IDs of its two end nodes; a node's ID never
  changes after its creation.
\<close>

definition edges_keyed :: "heap \<Rightarrow> Graph \<Rightarrow> bool" where
  "edges_keyed h g =
     (\<forall>((u, v), e) \<in> set (dg_edges g).
        n_id (cell h (e_from e)) = u \<and> n_id (cell h (e_to e)) = v)"

text \<open>An empty store, an allocator of IDs (one more than the largest ID in use), a quoter.\<close>

definition heap0 :: heap where
  "heap0 = \<lparr>cell = (\<lambda>_. \<lparr>n_id = 0, n_name = [], n_entry = False, n_Pre = 0, n_RevPost = 0,
                          n_Attrs = []\<rparr>),
            next_addr = 0\<rparr>"

definition alloc0 :: "int list \<Rightarrow> int" where
  "alloc0 ids = (if ids = [] then 0 else Max (set ids) + 1)"

definition quote0 :: "string \<Rightarrow> string" where
  "quote0 s = dquote # s @ [dquote]"

text \<open>
  A store with three named nodes and the graph in which node \<open>a\<close> branches to \<open>c\<close> and
  to \<open>b\<close>, the two edges carrying the given attributes.
\<close>

definition mk_node :: "int \<Rightarrow> string \<Rightarrow> bool \<Rightarrow> Node" where
  "mk_node i nm en = \<lparr>n_id = i, n_name = nm, n_entry = en, n_Pre = 0, n_RevPost = 0, n_Attrs = []\<rparr>"

definition heap3 :: heap where
  "heap3 = \<lparr>cell = (cell heap0)(0 := mk_node 0 ''a'' True, 1 := mk_node 1 ''b'' False,
                                 2 := mk_node 2 ''c'' False),
            next_addr = 3\<rparr>"

definition branch_graph :: "Attrs \<Rightarrow> Attrs \<Rightarrow> Graph" where
  "branch_graph l1 l2 =
     \<lparr>dg_nodes = [(0, 0), (1, 1), (2, 2)],
      dg_edges = [((0, 2), \<lparr>e_from = 0, e_to = 2, e_Attrs = l1\<rparr>),
                  ((0, 1), \<lparr>e_from = 0, e_to = 1, e_Attrs = l2\<rparr>)],
      g_id = [], g_entry = Some 0,
      g_nodes = [''a'' \<mapsto> 0, ''b'' \<mapsto> 1, ''c'' \<mapsto> 2]\<rparr>"


text \<open>
  A graph with the single entry node \<open>x\<close>, and a store that also holds two node objects
  that were never added to it: a second node named \<open>x\<close>, as \<open>NewNodeWithName\<close> returns
  it, and a node flagged as entry.
\<close>

definition heap_x :: heap where
  "heap_x = \<lparr>cell = (cell heap0)(0 := mk_node 0 ''x'' True, 1 := mk_node 1 ''x'' False,
                                  2 := mk_node 2 ''y'' True),
             next_addr = 3\<rparr>"

definition graph_x :: Graph where
  "graph_x = \<lparr>dg_nodes = [(0, 0)], dg_edges = [], g_id = [], g_entry = Some 0,
              g_nodes = [''x'' \<mapsto> 0]\<rparr>"

text \<open>What \<open>dot.Unmarshal\<close> does on \<open>digraph {}\<close>: it adds nothing and returns no error.\<close>

definition Unmarshal_nothing ::
  "string \<Rightarrow> heap \<Rightarrow> Graph \<Rightarrow> error + (heap \<times> Graph) returned" where
  "Unmarshal_nothing b h g = Inr (Inr (h, g))"

text \<open>
  What \<open>dot.Unmarshal\<close> does on a graph with the single node statement \<open>"0"\<close>: the
  builder calls \<open>NewNode\<close>, \<open>SetDOTID\<close> and \<open>AddNode\<close>, the ID kept with its quotes.
\<close>

definition Unmarshal_node_0 ::
  "string \<Rightarrow> heap \<Rightarrow> Graph \<Rightarrow> error + (heap \<times> Graph) returned" where
  "Unmarshal_node_0 b h g =
     (case NewNode alloc0 h g of
        (h1, n) \<Rightarrow>
          (case AddNode (Node_SetDOTID h1 n name_0) g n of
             Inl p \<Rightarrow> Inl p
           | Inr g1 \<Rightarrow> Inr (Inr (Node_SetDOTID h1 n name_0, g1))))"

text \<open>
  Stand-ins for \<open>sort.Slice\<close> and \<open>natsort.Less\<close> on which the model can be run: an
  insertion sort and the lexical order.
\<close>

fun insert_by :: "(addr \<Rightarrow> addr \<Rightarrow> bool) \<Rightarrow> addr \<Rightarrow> addr list \<Rightarrow> addr list" where
  "insert_by lt x [] = [x]"
| "insert_by lt x (y # ys) = (if lt y x then y # insert_by lt x ys else x # y # ys)"

definition sort_Slice0 :: "(addr \<Rightarrow> addr \<Rightarrow> bool) \<Rightarrow> addr list \<Rightarrow> addr list" where
  "sort_Slice0 lt xs = foldr (insert_by lt) xs []"

definition Less0 :: "string \<Rightarrow> string \<Rightarrow> bool" where
  "Less0 a b = (a < b)"

section \<open>Properties\<close>

subsection \<open>Sample data\<close>

text \<open>The sample store and graph are what the construction API builds.\<close>

lemma branch_graph_built:
  "(case NewNodeWithName alloc0 heap0 NewGraph ''a'' of Inl e \<Rightarrow> False | Inr (h1, a) \<Rightarrow>
    case AddNode h1 NewGraph a of Inl e \<Rightarrow> False | Inr g1 \<Rightarrow>
    case SetEntry h1 g1 a of Inl e \<Rightarrow> False | Inr (h2, g2) \<Rightarrow>
    case NewNodeWithName alloc0 h2 g2 ''b'' of Inl e \<Rightarrow> False | Inr (h3, b) \<Rightarrow>
    case AddNode h3 g2 b of Inl e \<Rightarrow> False | Inr g3 \<Rightarrow>
    case NewNodeWithName alloc0 h3 g3 ''c'' of Inl e \<Rightarrow> False | Inr (h4, c) \<Rightarrow>
    case AddNode h4 g3 c of Inl e \<Rightarrow> False | Inr g4 \<Rightarrow>
    case SetEdge h4 g4 (NewEdge a c) of Inl e \<Rightarrow> False | Inr g5 \<Rightarrow>
    case SetEdge h4 g5 (NewEdge a b) of Inl e \<Rightarrow> False | Inr g6 \<Rightarrow>
      h4 = heap3 \<and> g6 = branch_graph [] [])"
  apply (simp add: NewNodeWithName_def NewNode_def AddNode_def dg_AddNode_def Has_def SetEntry_def
      SetEdge_def NewEdge_def dg_SetEdge_def heap0_def alloc0_def NewGraph_def heap3_def
      branch_graph_def mk_node_def Let_def numeral_2_eq_2)
  done

subsection \<open>TrueTarget and FalseTarget\<close>

lemma edges_keyed_From:
  assumes "edges_keyed h g" and "s \<in> set (From g u)"
  shows "\<exists>e. EdgeOf g u (n_id (cell h s)) = Some e"
proof -
  from assms(2) obtain k e where ke: "(k, e) \<in> set (dg_edges g)" "fst k = u" "e_to e = s"
    by (auto simp: From_def)
  with assms(1) have "snd k = n_id (cell h s)"
    by (auto simp: edges_keyed_def)
  with ke have "((u, n_id (cell h s)), e) \<in> set (dg_edges g)"
    by (cases k) auto
  then have "map_of (dg_edges g) (u, n_id (cell h s)) \<noteq> None"
    by (metis (no_types) map_of_eq_None_iff fst_conv image_eqI)
  then show ?thesis by (auto simp: EdgeOf_def)
qed

lemma edges_keyed_branch: "edges_keyed heap3 (branch_graph l1 l2)"
  by (simp add: edges_keyed_def branch_graph_def heap3_def mk_node_def)

lemma From_branch: "From (branch_graph l1 l2) (n_id (cell heap3 0)) = [2, 1]"
  by (simp add: From_def branch_graph_def heap3_def mk_node_def)

text \<open>
  C5: when \<open>From\<close> lists exactly two successors and the edges to them are labelled
  \<open>true\<close> and \<open>false\<close>, in either order, \<open>TrueTarget\<close> returns the successor behind the
  edge labelled \<open>true\<close> and \<open>FalseTarget\<close> the one behind the edge labelled \<open>false\<close>,
  with no diagnostic; when the number of successors is not two, both panic with the
  number found.
\<close>

theorem TrueTarget_FalseTarget_labelled:
  assumes "edges_keyed h g"
  shows "(From g (n_id (cell h n)) = [s1, s2] \<longrightarrow>
           (\<exists>e1 e2. EdgeOf g (n_id (cell h n)) (n_id (cell h s1)) = Some e1 \<and>
                    EdgeOf g (n_id (cell h n)) (n_id (cell h s2)) = Some e2 \<and>
              (attr_get (e_Attrs e1) ''label'' = ''true'' \<and>
               attr_get (e_Attrs e2) ''label'' = ''false'' \<longrightarrow>
                 TrueTarget h g n = Inr (s1, []) \<and> FalseTarget h g n = Inr (s2, [])) \<and>
              (attr_get (e_Attrs e1) ''label'' = ''false'' \<and>
               attr_get (e_Attrs e2) ''label'' = ''true'' \<longrightarrow>
                 TrueTarget h g n = Inr (s2, []) \<and> FalseTarget h g n = Inr (s1, [])))) \<and>
         (length (From g (n_id (cell h n))) \<noteq> 2 \<longrightarrow>
            TrueTarget h g n = Inl (InvalidSuccessorCount (length (From g (n_id (cell h n))))) \<and>
            FalseTarget h g n = Inl (InvalidSuccessorCount (length (From g (n_id (cell h n))))))"
proof (intro conjI impI)
  assume two: "From g (n_id (cell h n)) = [s1, s2]"
  from edges_keyed_From [OF assms, of s1 "n_id (cell h n)"] two
  obtain e1 where e1: "EdgeOf g (n_id (cell h n)) (n_id (cell h s1)) = Some e1" by auto
  from edges_keyed_From [OF assms, of s2 "n_id (cell h n)"] two
  obtain e2 where e2: "EdgeOf g (n_id (cell h n)) (n_id (cell h s2)) = Some e2" by auto
  show "\<exists>e1 e2. EdgeOf g (n_id (cell h n)) (n_id (cell h s1)) = Some e1 \<and>
                    EdgeOf g (n_id (cell h n)) (n_id (cell h s2)) = Some e2 \<and>
              (attr_get (e_Attrs e1) ''label'' = ''true'' \<and>
               attr_get (e_Attrs e2) ''label'' = ''false'' \<longrightarrow>
                 TrueTarget h g n = Inr (s1, []) \<and> FalseTarget h g n = Inr (s2, [])) \<and>
              (attr_get (e_Attrs e1) ''label'' = ''false'' \<and>
               attr_get (e_Attrs e2) ''label'' = ''true'' \<longrightarrow>
                 TrueTarget h g n = Inr (s2, []) \<and> FalseTarget h g n = Inr (s1, []))"
    using e1 e2 two by (simp add: TrueTarget_def FalseTarget_def)
next
  assume "length (From g (n_id (cell h n))) \<noteq> 2"
  then show "TrueTarget h g n = Inl (InvalidSuccessorCount (length (From g (n_id (cell h n)))))"
    by (simp add: TrueTarget_def)
next
  assume "length (From g (n_id (cell h n))) \<noteq> 2"
  then show "FalseTarget h g n = Inl (InvalidSuccessorCount (length (From g (n_id (cell h n)))))"
    by (simp add: FalseTarget_def)
qed

theorem TrueTarget_FalseTarget_labelled_witness:
  "edges_keyed heap3 (branch_graph [(''label'', ''true'')] [(''label'', ''false'')]) \<and>
   From (branch_graph [(''label'', ''true'')] [(''label'', ''false'')]) (n_id (cell heap3 0)) = [2, 1] \<and>
   TrueTarget heap3 (branch_graph [(''label'', ''true'')] [(''label'', ''false'')]) 0 = Inr (2, []) \<and>
   FalseTarget heap3 (branch_graph [(''label'', ''true'')] [(''label'', ''false'')]) 0 = Inr (1, []) \<and>
   length (From (branch_graph [] []) (n_id (cell heap3 1))) \<noteq> 2 \<and>
   TrueTarget heap3 (branch_graph [] []) 1 = Inl (InvalidSuccessorCount 0)"
  using TrueTarget_FalseTarget_labelled [OF edges_keyed_branch, of "[(''label'', ''true'')]" "[(''label'', ''false'')]" 0 2 1]
    TrueTarget_FalseTarget_labelled [OF edges_keyed_branch, of "[]" "[]" 1 2 1]
  by (simp add: From_def EdgeOf_def branch_graph_def heap3_def mk_node_def attr_get_def edges_keyed_def)

text \<open>
  C6 as stated fails: in the sample graph \<open>From\<close> lists the successors of node \<open>0\<close> as
  \<open>2, 1\<close>, and both operations return node \<open>2\<close>, whose ID is the larger one.
\<close>

theorem TrueTarget_first_listed_counterexample:
  "From (branch_graph [] []) (n_id (cell heap3 0)) = [2, 1] \<and>
   TrueTarget heap3 (branch_graph [] []) 0 = Inr (2, [UnableToLocateTrueBranch [] []]) \<and>
   FalseTarget heap3 (branch_graph [] []) 0 = Inr (2, [UnableToLocateFalseBranch [] []]) \<and>
   n_id (cell heap3 1) < n_id (cell heap3 2)"
  by (simp add: TrueTarget_def FalseTarget_def From_def EdgeOf_def branch_graph_def heap3_def
      mk_node_def attr_get_def)

text \<open>
  C6, as amended: with exactly two successors whose labels are not \<open>true\<close> and \<open>false\<close>,
  neither operation panics; each writes one diagnostic and returns the successor that
  \<open>From\<close> lists first.
\<close>

theorem TrueTarget_FalseTarget_unlabelled:
  assumes "edges_keyed h g" and "From g (n_id (cell h n)) = [s1, s2]"
  shows "\<exists>e1 e2. EdgeOf g (n_id (cell h n)) (n_id (cell h s1)) = Some e1 \<and>
                 EdgeOf g (n_id (cell h n)) (n_id (cell h s2)) = Some e2 \<and>
           (\<not> (attr_get (e_Attrs e1) ''label'' = ''true'' \<and>
               attr_get (e_Attrs e2) ''label'' = ''false'') \<and>
            \<not> (attr_get (e_Attrs e1) ''label'' = ''false'' \<and>
               attr_get (e_Attrs e2) ''label'' = ''true'') \<longrightarrow>
              TrueTarget h g n =
                Inr (s1, [UnableToLocateTrueBranch (attr_get (e_Attrs e1) ''label'')
                                                  (attr_get (e_Attrs e2) ''label'')]) \<and>
              FalseTarget h g n =
                Inr (s1, [UnableToLocateFalseBranch (attr_get (e_Attrs e1) ''label'')
                                                   (attr_get (e_Attrs e2) ''label'')]))"
proof -
  from edges_keyed_From [OF assms(1), of s1 "n_id (cell h n)"] assms(2)
  obtain e1 where e1: "EdgeOf g (n_id (cell h n)) (n_id (cell h s1)) = Some e1" by auto
  from edges_keyed_From [OF assms(1), of s2 "n_id (cell h n)"] assms(2)
  obtain e2 where e2: "EdgeOf g (n_id (cell h n)) (n_id (cell h s2)) = Some e2" by auto
  show ?thesis
    using e1 e2 assms(2) by (auto simp add: TrueTarget_def FalseTarget_def)
qed

theorem TrueTarget_FalseTarget_unlabelled_witness:
  "edges_keyed heap3 (branch_graph [(''label'', ''case (x=1)'')] []) \<and>
   From (branch_graph [(''label'', ''case (x=1)'')] []) (n_id (cell heap3 0)) = [2, 1] \<and>
   TrueTarget heap3 (branch_graph [(''label'', ''case (x=1)'')] []) 0
     = Inr (2, [UnableToLocateTrueBranch ''case (x=1)'' []]) \<and>
   FalseTarget heap3 (branch_graph [(''label'', ''case (x=1)'')] []) 0
     = Inr (2, [UnableToLocateFalseBranch ''case (x=1)'' []])"
  using TrueTarget_FalseTarget_unlabelled [OF edges_keyed_branch From_branch, of "[(''label'', ''case (x=1)'')]" "[]"]
  by (simp add: From_def EdgeOf_def branch_graph_def heap3_def mk_node_def attr_get_def edges_keyed_def)


subsection \<open>SetEntry\<close>

text \<open>
  C7 as stated fails: in the sample graph node \<open>0\<close> is the entry, and setting it as the
  entry once more panics.
\<close>

theorem SetEntry_again_counterexample:
  "g_entry (branch_graph [] []) = Some 0 \<and>
   SetEntry heap3 (branch_graph [] []) 0 = Inl EntryAlreadyPresent"
  by (simp add: SetEntry_def branch_graph_def)

text \<open>
  C7, as amended: \<open>SetEntry\<close> panics exactly when the graph has an entry node already, whichever
  node that is; when there is none it sets the flag of the node object and makes the node
  the graph's entry, and changes nothing else.
\<close>

theorem SetEntry_fails_iff_entry_present:
  "((\<exists>e. SetEntry h g n = Inl e) \<longleftrightarrow> g_entry g \<noteq> None) \<and>
   (g_entry g = None \<longrightarrow>
      (\<exists>h' g'. SetEntry h g n = Inr (h', g') \<and> n_entry (cell h' n) \<and> g_entry g' = Some n
         \<and> (\<forall>m. m \<noteq> n \<longrightarrow> cell h' m = cell h m)
         \<and> cell h' n = (cell h n)\<lparr>n_entry := True\<rparr>
         \<and> g' = g\<lparr>g_entry := Some n\<rparr>))"
  by (simp add: SetEntry_def)

theorem SetEntry_fails_iff_entry_present_witness:
  "g_entry NewGraph = None \<and>
   SetEntry heap0 NewGraph 0 =
     Inr (heap0\<lparr>cell := (cell heap0)(0 := (cell heap0 0)\<lparr>n_entry := True\<rparr>)\<rparr>,
          NewGraph\<lparr>g_entry := Some 0\<rparr>)"
  using SetEntry_fails_iff_entry_present [of heap0 NewGraph 0]
  by (auto simp add: NewGraph_def SetEntry_def)

subsection \<open>RemoveNode\<close>

lemma graph_x_built:
  "(case NewNodeWithName alloc0 heap0 NewGraph ''x'' of Inl e \<Rightarrow> False | Inr (h1, a) \<Rightarrow>
    case AddNode h1 NewGraph a of Inl e \<Rightarrow> False | Inr g1 \<Rightarrow>
    case SetEntry h1 g1 a of Inl e \<Rightarrow> False | Inr (h2, g2) \<Rightarrow>
    case NewNodeWithName alloc0 h2 g2 ''x'' of Inl e \<Rightarrow> False | Inr (h3, b) \<Rightarrow>
      g2 = graph_x \<and> a = 0 \<and> b = 1 \<and> cell h3 0 = cell heap_x 0 \<and> cell h3 1 = cell heap_x 1)"
  by (simp add: NewNodeWithName_def NewNode_def AddNode_def dg_AddNode_def Has_def SetEntry_def
      heap0_def alloc0_def NewGraph_def heap_x_def graph_x_def mk_node_def Let_def)

text \<open>
  C8: node \<open>1\<close> is not in \<open>graph_x\<close> (no node of the graph has its ID), yet removing it
  deletes the name of node \<open>0\<close> from the name index; node \<open>2\<close> is not in the graph either,
  yet removing it clears the entry. The node set is unchanged both times.
\<close>

theorem RemoveNode_absent_node_changes_graph:
  "\<not> Has graph_x (n_id (cell heap_x 1)) \<and> 1 \<notin> set (Nodes graph_x) \<and>
   NodeWithName graph_x ''x'' = Some 0 \<and>
   NodeWithName (RemoveNode heap_x graph_x 1) ''x'' = None \<and>
   Nodes (RemoveNode heap_x graph_x 1) = Nodes graph_x \<and>
   \<not> Has graph_x (n_id (cell heap_x 2)) \<and> 2 \<notin> set (Nodes graph_x) \<and>
   g_entry graph_x = Some 0 \<and>
   g_entry (RemoveNode heap_x graph_x 2) = None \<and>
   Nodes (RemoveNode heap_x graph_x 2) = Nodes graph_x"
  by (simp add: RemoveNode_def dg_RemoveNode_def Has_def Nodes_def NodeWithName_def
      heap_x_def graph_x_def mk_node_def)

subsection \<open>AddNode and empty names\<close>

text \<open>
  C10: a node with the empty name whose ID is free is added without a panic, unless it is
  flagged as entry while another node is the entry; the name index is left as it was,
  whatever it holds. \<open>NewNodeWithName\<close> panics on the empty name. Two nodes made by
  \<open>NewNode\<close> and added one after the other are both in the graph, both with the empty
  name, and the name index is still empty.
\<close>

theorem AddNode_empty_name:
  "(n_name (cell h n) = [] \<and> \<not> Has g (n_id (cell h n)) \<and>
      (n_entry (cell h n) \<longrightarrow> g_entry g = None \<or> g_entry g = Some n) \<longrightarrow>
      (\<exists>g'. AddNode h g n = Inr g' \<and> g_nodes g' = g_nodes g \<and> Nodes g' = Nodes g @ [n])) \<and>
   NewNodeWithName alloc h g [] = Inl EmptyNodeName \<and>
   (alloc [alloc []] \<noteq> alloc [] \<longrightarrow>
      (\<exists>h1 a g1 h2 b g2.
          NewNode alloc h NewGraph = (h1, a) \<and> AddNode h1 NewGraph a = Inr g1 \<and>
          NewNode alloc h1 g1 = (h2, b) \<and> AddNode h2 g1 b = Inr g2 \<and>
          Nodes g2 = [a, b] \<and> a \<noteq> b \<and>
          n_name (cell h2 a) = [] \<and> n_name (cell h2 b) = [] \<and>
          g_nodes g2 = Map.empty))"
  by (auto simp add: AddNode_def dg_AddNode_def Has_def Nodes_def NewNodeWithName_def NewNode_def
      NewGraph_def Let_def)

theorem AddNode_empty_name_witness:
  "alloc0 [alloc0 []] \<noteq> alloc0 [] \<and>
   n_name (cell heap0 0) = [] \<and> \<not> Has NewGraph (n_id (cell heap0 0)) \<and>
   AddNode heap0 NewGraph 0 = Inr (NewGraph\<lparr>dg_nodes := [(0, 0)]\<rparr>) \<and>
   (\<exists>h1 a g1 h2 b g2.
          NewNode alloc0 heap0 NewGraph = (h1, a) \<and> AddNode h1 NewGraph a = Inr g1 \<and>
          NewNode alloc0 h1 g1 = (h2, b) \<and> AddNode h2 g1 b = Inr g2 \<and>
          Nodes g2 = [a, b] \<and> a \<noteq> b \<and>
          n_name (cell h2 a) = [] \<and> n_name (cell h2 b) = [] \<and>
          g_nodes g2 = Map.empty)"
proof -
  have a: "alloc0 [alloc0 []] \<noteq> alloc0 []" by (simp add: alloc0_def)
  have b: "n_name (cell heap0 0) = [] \<and> \<not> Has NewGraph (n_id (cell heap0 0)) \<and>
      (n_entry (cell heap0 0) \<longrightarrow> g_entry NewGraph = None \<or> g_entry NewGraph = Some 0)"
    by (simp add: heap0_def Has_def NewGraph_def)
  have c: "AddNode heap0 NewGraph 0 = Inr (NewGraph\<lparr>dg_nodes := [(0, 0)]\<rparr>)"
    by (simp add: AddNode_def dg_AddNode_def Has_def heap0_def NewGraph_def)
  from AddNode_empty_name [of heap0 0 NewGraph alloc0] a b c show ?thesis
    by blast
qed


subsection \<open>Attributes\<close>

lemma Attrs_Attributes_keys:
  "map fst (Attrs_Attributes Quote a) = sort (remdups (map fst a))"
  by (auto simp add: Attrs_Attributes_def Let_def intro!: map_idI)

text \<open>
  C9 as stated fails: the value of \<open>color\<close> contains a space and is rendered as it is,
  and so is a label whose whitespace is a tab.
\<close>

theorem Attrs_Attributes_unquoted_counterexample:
  "Attrs_Attributes quote0 [(''color'', ''dark green'')] = [(''color'', ''dark green'')] \<and>
   Attrs_Attributes quote0 [(''label'', [CHR ''a'', CHR 0x09, CHR ''b''])]
     = [(''label'', [CHR ''a'', CHR 0x09, CHR ''b''])]"
  by (simp add: Attrs_Attributes_def attr_get_def ContainsSpace_def)

text \<open>
  C9, as amended: the keys come out in lexical order, each key of the map once; the value
  of the key \<open>label\<close> is passed through \<open>strconv.Quote\<close> when it contains a space
  character and does not already start with a double quote; every other value is
  rendered as stored. An edge renders its attribute map this way, and so does a node,
  after the label of an entry node has been written into the map.
\<close>

theorem Attrs_Attributes_sorted_label_quoted:
  "sorted (map fst (Attrs_Attributes Quote a)) \<and>
   distinct (map fst (Attrs_Attributes Quote a)) \<and>
   set (map fst (Attrs_Attributes Quote a)) = fst ` set a \<and>
   (\<forall>(k, v) \<in> set (Attrs_Attributes Quote a).
      v = (if k = ''label'' \<and> ContainsSpace (attr_get a k) \<and> \<not> HasPrefix (attr_get a k) [dquote]
           then Quote (attr_get a k) else attr_get a k)) \<and>
   Edge_Attributes Quote e = Attrs_Attributes Quote (e_Attrs e) \<and>
   (\<forall>h' out. Node_Attributes Quote h n = Inr (h', out) \<longrightarrow>
      out = Attrs_Attributes Quote (n_Attrs (cell h' n)))"
proof (intro conjI)
  show "sorted (map fst (Attrs_Attributes Quote a))"
    by (simp add: Attrs_Attributes_keys)
  show "distinct (map fst (Attrs_Attributes Quote a))"
    by (simp add: Attrs_Attributes_keys)
  show "set (map fst (Attrs_Attributes Quote a)) = fst ` set a"
    by (simp add: Attrs_Attributes_keys)
  show "\<forall>(k, v) \<in> set (Attrs_Attributes Quote a).
      v = (if k = ''label'' \<and> ContainsSpace (attr_get a k) \<and> \<not> HasPrefix (attr_get a k) [dquote]
           then Quote (attr_get a k) else attr_get a k)"
    by (auto simp add: Attrs_Attributes_def Let_def split: if_splits)
  show "Edge_Attributes Quote e = Attrs_Attributes Quote (e_Attrs e)"
    by (simp add: Edge_Attributes_def)
  show "\<forall>h' out. Node_Attributes Quote h n = Inr (h', out) \<longrightarrow>
      out = Attrs_Attributes Quote (n_Attrs (cell h' n))"
    by (auto simp add: Node_Attributes_def Let_def split: if_splits option.splits)
qed

theorem Attrs_Attributes_sorted_label_quoted_witness:
  "Attrs_Attributes quote0 [(''label'', ''case (x=1)''), (''color'', ''dark green'')]
     = [(''color'', ''dark green''), (''label'', quote0 ''case (x=1)'')] \<and>
   sorted (map fst (Attrs_Attributes quote0 [(''label'', ''case (x=1)''), (''color'', ''dark green'')])) \<and>
   Node_Attributes quote0 heap3 0
     = Inr (heap3\<lparr>cell := (cell heap3)(0 := (cell heap3 0)\<lparr>n_Attrs := [(''label'', ''entry'')]\<rparr>)\<rparr>,
            [(''label'', ''entry'')])"
proof -
  have "Attrs_Attributes quote0 [(''label'', ''case (x=1)''), (''color'', ''dark green'')]
     = [(''color'', ''dark green''), (''label'', quote0 ''case (x=1)'')]"
    by (simp add: Attrs_Attributes_def attr_get_def ContainsSpace_def HasPrefix_def dquote_def)
  moreover have "Node_Attributes quote0 heap3 0
     = Inr (heap3\<lparr>cell := (cell heap3)(0 := (cell heap3 0)\<lparr>n_Attrs := [(''label'', ''entry'')]\<rparr>)\<rparr>,
            [(''label'', ''entry'')])"
    by (simp add: Node_Attributes_def heap3_def mk_node_def Attrs_Attributes_def attr_get_def
        ContainsSpace_def Let_def)
  ultimately show ?thesis
    using Attrs_Attributes_sorted_label_quoted
      [of quote0 "[(''label'', ''case (x=1)''), (''color'', ''dark green'')]"]
    by simp
qed

subsection \<open>ParseBytes\<close>

lemma entry_loop_no_flag:
  "\<forall>n \<in> set ns. \<not> n_entry (cell h n) \<Longrightarrow> entry_loop h g ns = Inr g"
  by (induction ns) auto

lemma initNodes_loop_fields:
  "initNodes_loop h g ns = Inr g' \<Longrightarrow>
     dg_nodes g' = dg_nodes g \<and> dg_edges g' = dg_edges g \<and> g_entry g' = g_entry g \<and> g_id g' = g_id g"
  by (induction ns arbitrary: g) (auto simp add: Let_def split: if_splits option.splits)

text \<open>
  C4 as stated fails: when the decoded graph has no node at all, \<open>ParseBytes\<close> panics;
  it does not return an error.
\<close>

theorem ParseBytes_no_entry_panics_counterexample:
  "Unmarshal_nothing ''digraph {}'' heap0 NewGraph = Inr (Inr (heap0, NewGraph)) \<and>
   ParseBytes Unmarshal_nothing heap0 ''digraph {}'' = Inl UnableToLocateEntry"
  by (simp add: ParseBytes_def Unmarshal_nothing_def initNodes_def Nodes_def NewGraph_def
      NodeWithName_def)

text \<open>
  C4, as amended: when \<open>dot.Unmarshal\<close> returns without error a graph in which no node is
  flagged as entry and no entry is set, and the name index can be built, \<open>ParseBytes\<close>
  makes the node filed under the three characters \<open>"0"\<close> (the quotes are part of the
  name) the entry and flags it; when the index has no such name it panics with
  \<open>UnableToLocateEntry\<close>, which is not a returned error.
\<close>

theorem ParseBytes_entry_fallback:
  assumes "Unmarshal b h NewGraph = Inr (Inr (h1, g))"
    and "g_entry g = None"
    and "\<forall>n \<in> set (Nodes g). \<not> n_entry (cell h1 n)"
    and "initNodes h1 g = Inr g1"
  shows "(\<forall>n. NodeWithName g1 name_0 = Some n \<longrightarrow>
            ParseBytes Unmarshal h b =
              Inr (Inr (h1\<lparr>cell := (cell h1)(n := (cell h1 n)\<lparr>n_entry := True\<rparr>)\<rparr>,
                        g1\<lparr>g_entry := Some n\<rparr>))) \<and>
         (NodeWithName g1 name_0 = None \<longrightarrow> ParseBytes Unmarshal h b = Inl UnableToLocateEntry)"
proof -
  from assms(4) have f: "dg_nodes g1 = dg_nodes g" "g_entry g1 = g_entry g"
    using initNodes_loop_fields [of h1 g "Nodes g" g1] by (simp_all add: initNodes_def)
  then have "Nodes g1 = Nodes g" by (simp add: Nodes_def)
  with assms(3) have loop: "entry_loop h1 g1 (Nodes g1) = Inr g1"
    by (simp add: entry_loop_no_flag)
  show ?thesis
    using assms(1,2,4) loop f(2)
    by (simp add: ParseBytes_def SetEntry_def split: option.splits)
qed

theorem ParseBytes_entry_fallback_witness:
  "Unmarshal_node_0 [] heap0 NewGraph
     = Inr (Inr (heap0\<lparr>cell := (cell heap0)(0 := mk_node 0 name_0 False), next_addr := 1\<rparr>,
                 NewGraph\<lparr>dg_nodes := [(0, 0)], g_nodes := [name_0 \<mapsto> 0]\<rparr>)) \<and>
   ParseBytes Unmarshal_node_0 heap0 []
     = Inr (Inr (heap0\<lparr>cell := (cell heap0)(0 := mk_node 0 name_0 True), next_addr := 1\<rparr>,
                 NewGraph\<lparr>dg_nodes := [(0, 0)], g_nodes := [name_0 \<mapsto> 0],
                          g_entry := Some 0\<rparr>))"
proof -
  let ?h1 = "heap0\<lparr>cell := (cell heap0)(0 := mk_node 0 name_0 False), next_addr := 1\<rparr>"
  let ?g = "NewGraph\<lparr>dg_nodes := [(0, 0)], g_nodes := [name_0 \<mapsto> 0]\<rparr>"
  have u: "Unmarshal_node_0 [] heap0 NewGraph = Inr (Inr (?h1, ?g))"
    by (simp add: Unmarshal_node_0_def NewNode_def Node_SetDOTID_def AddNode_def dg_AddNode_def
        Has_def heap0_def alloc0_def NewGraph_def mk_node_def name_0_def Let_def)
  have e: "g_entry ?g = None" by (simp add: NewGraph_def)
  have n: "\<forall>n \<in> set (Nodes ?g). \<not> n_entry (cell ?h1 n)"
    by (simp add: Nodes_def mk_node_def)
  have i: "initNodes ?h1 ?g = Inr ?g"
    by (simp add: initNodes_def Nodes_def mk_node_def name_0_def NewGraph_def)
  have l: "NodeWithName ?g name_0 = Some 0" by (simp add: NodeWithName_def)
  from ParseBytes_entry_fallback [of Unmarshal_node_0 "[]" heap0 ?h1 ?g ?g] u e n i l
  show ?thesis
    by (simp add: mk_node_def NewGraph_def)
qed


subsection \<open>InitDFSOrder\<close>

lemma dfs_frame_refl: "d_visited s \<subseteq> set (Nodes g) \<Longrightarrow> dfs_frame g s s"
  by (simp add: dfs_frame_def)

lemma card_diff_split:
  assumes "A \<subseteq> B" "B \<subseteq> C" "finite C"
  shows "card (C - A) = card (B - A) + card (C - B)"
proof -
  have "C - A = (B - A) \<union> (C - B)" using assms by auto
  moreover have "(B - A) \<inter> (C - B) = {}" by auto
  moreover have "finite (B - A)" "finite (C - B)" using assms by (auto intro: finite_subset)
  ultimately show ?thesis by (simp add: card_Un_disjoint)
qed

lemma dfs_frame_trans:
  assumes a: "dfs_frame g s s'" and b: "dfs_frame g s' s''"
  shows "dfs_frame g s s''"
proof -
  let ?V = "d_visited s" and ?V' = "d_visited s'" and ?V'' = "d_visited s''"
  have sub: "?V \<subseteq> ?V'" "?V' \<subseteq> ?V''" "?V'' \<subseteq> set (Nodes g)"
    using a b by (simp_all add: dfs_frame_def)
  have fin: "finite ?V''" using sub(3) by (rule finite_subset) simp
  have card: "card (?V'' - ?V) = card (?V' - ?V) + card (?V'' - ?V')"
    using card_diff_split [OF sub(1,2) fin] .
  have split: "?V'' - ?V = (?V' - ?V) \<union> (?V'' - ?V')" using sub by auto
  have f1: "d_first s' = d_first s + int (card (?V' - ?V))"
    and f2: "d_first s'' = d_first s' + int (card (?V'' - ?V'))"
    and l1: "d_last s' = d_last s - int (card (?V' - ?V))"
    and l2: "d_last s'' = d_last s' - int (card (?V'' - ?V'))"
    using a b by (simp_all add: dfs_frame_def)
  have keep: "\<And>x. x \<notin> ?V'' - ?V' \<Longrightarrow> cell (d_heap s'') x = cell (d_heap s') x"
    using b by (simp add: dfs_frame_def)
  have keep0: "\<And>x. x \<notin> ?V' - ?V \<Longrightarrow> cell (d_heap s') x = cell (d_heap s) x"
    using a by (simp add: dfs_frame_def)
  have pre1: "(\<lambda>x. n_Pre (cell (d_heap s'') x)) ` (?V' - ?V) = {d_first s ..< d_first s'}"
  proof -
    have "(\<lambda>x. n_Pre (cell (d_heap s'') x)) ` (?V' - ?V) = (\<lambda>x. n_Pre (cell (d_heap s') x)) ` (?V' - ?V)"
      by (rule image_cong) (auto simp: keep)
    then show ?thesis using a by (simp add: dfs_frame_def)
  qed
  have pre2: "(\<lambda>x. n_Pre (cell (d_heap s'') x)) ` (?V'' - ?V') = {d_first s' ..< d_first s''}"
    using b by (simp add: dfs_frame_def)
  have post1: "(\<lambda>x. n_RevPost (cell (d_heap s'') x)) ` (?V' - ?V) = {d_last s' <.. d_last s}"
  proof -
    have "(\<lambda>x. n_RevPost (cell (d_heap s'') x)) ` (?V' - ?V) = (\<lambda>x. n_RevPost (cell (d_heap s') x)) ` (?V' - ?V)"
      by (rule image_cong) (auto simp: keep)
    then show ?thesis using a by (simp add: dfs_frame_def)
  qed
  have post2: "(\<lambda>x. n_RevPost (cell (d_heap s'') x)) ` (?V'' - ?V') = {d_last s'' <.. d_last s'}"
    using b by (simp add: dfs_frame_def)
  have i1: "{d_first s ..< d_first s'} \<union> {d_first s' ..< d_first s''} = {d_first s ..< d_first s''}"
    using f1 f2 by auto
  have i2: "{d_last s' <.. d_last s} \<union> {d_last s'' <.. d_last s'} = {d_last s'' <.. d_last s}"
    using l1 l2 by auto
  have P: "(\<lambda>x. n_Pre (cell (d_heap s'') x)) ` (?V'' - ?V) = {d_first s ..< d_first s''}"
    by (simp only: split image_Un pre1 pre2 i1)
  have R: "(\<lambda>x. n_RevPost (cell (d_heap s'') x)) ` (?V'' - ?V) = {d_last s'' <.. d_last s}"
    by (simp only: split image_Un post1 post2 i2)
  have K: "\<forall>x. x \<notin> ?V'' - ?V \<longrightarrow> cell (d_heap s'') x = cell (d_heap s) x"
  proof (intro allI impI)
    fix x assume "x \<notin> ?V'' - ?V"
    then have "x \<notin> ?V'' - ?V'" "x \<notin> ?V' - ?V" using sub by auto
    then show "cell (d_heap s'') x = cell (d_heap s) x"
      using keep [of x] keep0 [of x] by simp
  qed
  have F: "\<forall>x. cell (d_heap s'') x =
             (cell (d_heap s) x)\<lparr>n_Pre := n_Pre (cell (d_heap s'') x),
                                  n_RevPost := n_RevPost (cell (d_heap s'') x)\<rparr>"
  proof
    fix x
    have 1: "cell (d_heap s'') x = (cell (d_heap s') x)\<lparr>n_Pre := n_Pre (cell (d_heap s'') x),
                                  n_RevPost := n_RevPost (cell (d_heap s'') x)\<rparr>"
      using b by (simp add: dfs_frame_def)
    have 2: "cell (d_heap s') x = (cell (d_heap s) x)\<lparr>n_Pre := n_Pre (cell (d_heap s') x),
                                  n_RevPost := n_RevPost (cell (d_heap s') x)\<rparr>"
      using a by (simp add: dfs_frame_def)
    show "cell (d_heap s'') x =
             (cell (d_heap s) x)\<lparr>n_Pre := n_Pre (cell (d_heap s'') x),
                                  n_RevPost := n_RevPost (cell (d_heap s'') x)\<rparr>"
      by (subst 1, subst 2) simp
  qed
  have NA: "next_addr (d_heap s'') = next_addr (d_heap s)"
    using a b by (simp add: dfs_frame_def)
  show ?thesis
    unfolding dfs_frame_def
    using sub P R K F NA f1 f2 l1 l2 card by auto
qed


lemma dfs_frame_walk_step:
  assumes sub: "d_visited s \<subseteq> set (Nodes g)" and nv: "n \<notin> d_visited s" and nn: "n \<in> set (Nodes g)"
    and s1: "s1 = s\<lparr>d_heap := (d_heap s)\<lparr>cell := (cell (d_heap s))(n := (cell (d_heap s) n)\<lparr>n_Pre := d_first s\<rparr>)\<rparr>,
                    d_first := d_first s + 1, d_visited := insert n (d_visited s)\<rparr>"
    and fr: "dfs_frame g s1 s2"
    and s3: "s3 = s2\<lparr>d_heap := (d_heap s2)\<lparr>cell := (cell (d_heap s2))(n := (cell (d_heap s2) n)\<lparr>n_RevPost := d_last s2\<rparr>)\<rparr>,
                     d_last := d_last s2 - 1\<rparr>"
  shows "dfs_frame g s s3 \<and> n \<in> d_visited s3 \<and> n_Pre (cell (d_heap s3) n) = d_first s"
proof -
  let ?V = "d_visited s" and ?V2 = "d_visited s2"
  define E where "E = ?V2 - insert n ?V"
  have v1: "d_visited s1 = insert n ?V" and f1: "d_first s1 = d_first s + 1"
    and l1: "d_last s1 = d_last s" using s1 by simp_all
  have v3: "d_visited s3 = ?V2" and f3: "d_first s3 = d_first s2" and l3: "d_last s3 = d_last s2 - 1"
    using s3 by simp_all
  have sub2: "insert n ?V \<subseteq> ?V2" "?V2 \<subseteq> set (Nodes g)"
    using fr v1 by (simp_all add: dfs_frame_def)
  have fin: "finite E" unfolding E_def using sub2(2) by (meson finite_Diff finite_set finite_subset)
  have D: "?V2 - ?V = insert n E" unfolding E_def using sub2 nv by auto
  have nE: "n \<notin> E" by (simp add: E_def)
  have cardD: "card (?V2 - ?V) = Suc (card E)"
    using D fin nE by simp
  have f2: "d_first s2 = d_first s + 1 + int (card E)"
    using fr v1 f1 by (simp add: dfs_frame_def E_def)
  have l2: "d_last s2 = d_last s - int (card E)"
    using fr v1 l1 by (simp add: dfs_frame_def E_def)
  have h1n: "cell (d_heap s1) n = (cell (d_heap s) n)\<lparr>n_Pre := d_first s\<rparr>"
    using s1 by simp
  have h1o: "\<And>a. a \<noteq> n \<Longrightarrow> cell (d_heap s1) a = cell (d_heap s) a"
    using s1 by simp
  have keep2: "\<And>a. a \<notin> E \<Longrightarrow> cell (d_heap s2) a = cell (d_heap s1) a"
    using fr v1 by (simp add: dfs_frame_def E_def)
  have h3n: "cell (d_heap s3) n = (cell (d_heap s2) n)\<lparr>n_RevPost := d_last s2\<rparr>"
    using s3 by simp
  have h3o: "\<And>a. a \<noteq> n \<Longrightarrow> cell (d_heap s3) a = cell (d_heap s2) a"
    using s3 by simp
  have h2n: "cell (d_heap s2) n = (cell (d_heap s) n)\<lparr>n_Pre := d_first s\<rparr>"
    using keep2 [of n] h1n nE by simp
  have neq: "\<And>a. a \<in> E \<Longrightarrow> a \<noteq> n" using nE by auto
  have preE: "(\<lambda>a. n_Pre (cell (d_heap s3) a)) ` E = {d_first s + 1 ..< d_first s2}"
  proof -
    have "(\<lambda>a. n_Pre (cell (d_heap s3) a)) ` E = (\<lambda>a. n_Pre (cell (d_heap s2) a)) ` E"
      by (rule image_cong) (simp_all add: h3o neq)
    then show ?thesis using fr v1 f1 by (simp add: dfs_frame_def E_def)
  qed
  have postE: "(\<lambda>a. n_RevPost (cell (d_heap s3) a)) ` E = {d_last s2 <.. d_last s}"
  proof -
    have "(\<lambda>a. n_RevPost (cell (d_heap s3) a)) ` E = (\<lambda>a. n_RevPost (cell (d_heap s2) a)) ` E"
      by (rule image_cong) (simp_all add: h3o neq)
    then show ?thesis using fr v1 l1 by (simp add: dfs_frame_def E_def)
  qed
  have pren: "n_Pre (cell (d_heap s3) n) = d_first s" using h3n h2n by simp
  have postn: "n_RevPost (cell (d_heap s3) n) = d_last s2" using h3n by simp
  have i1: "insert (d_first s) {d_first s + 1 ..< d_first s2} = {d_first s ..< d_first s2}"
    using f2 by auto
  have i2: "insert (d_last s2) {d_last s2 <.. d_last s} = {d_last s2 - 1 <.. d_last s}"
    using l2 by auto
  have P: "(\<lambda>a. n_Pre (cell (d_heap s3) a)) ` (?V2 - ?V) = {d_first s ..< d_first s2}"
    by (simp only: D image_insert preE pren i1)
  have R: "(\<lambda>a. n_RevPost (cell (d_heap s3) a)) ` (?V2 - ?V) = {d_last s2 - 1 <.. d_last s}"
    by (simp only: D image_insert postE postn i2)
  have K: "\<forall>a. a \<notin> ?V2 - ?V \<longrightarrow> cell (d_heap s3) a = cell (d_heap s) a"
  proof (intro allI impI)
    fix a assume "a \<notin> ?V2 - ?V"
    then have "a \<notin> insert n E" using D by simp
    then have "a \<noteq> n" "a \<notin> E" by auto
    then show "cell (d_heap s3) a = cell (d_heap s) a"
      using h3o [of a] keep2 [of a] h1o [of a] by simp
  qed
  have F2: "\<And>a. cell (d_heap s2) a =
             (cell (d_heap s1) a)\<lparr>n_Pre := n_Pre (cell (d_heap s2) a),
                                  n_RevPost := n_RevPost (cell (d_heap s2) a)\<rparr>"
    using fr by (simp add: dfs_frame_def)
  have F: "\<forall>a. cell (d_heap s3) a =
             (cell (d_heap s) a)\<lparr>n_Pre := n_Pre (cell (d_heap s3) a),
                                  n_RevPost := n_RevPost (cell (d_heap s3) a)\<rparr>"
  proof
    fix a
    show "cell (d_heap s3) a =
             (cell (d_heap s) a)\<lparr>n_Pre := n_Pre (cell (d_heap s3) a),
                                  n_RevPost := n_RevPost (cell (d_heap s3) a)\<rparr>"
    proof (cases "a = n")
      case True
      show ?thesis unfolding True by (subst h3n, subst h2n) (simp add: h3n h2n)
    next
      case False
      have "cell (d_heap s3) a = cell (d_heap s2) a" using False by (rule h3o)
      moreover have "cell (d_heap s1) a = cell (d_heap s) a" using False by (rule h1o)
      ultimately show ?thesis using F2 [of a] by simp
    qed
  qed
  have NA: "next_addr (d_heap s3) = next_addr (d_heap s)"
    using fr s1 s3 by (simp add: dfs_frame_def)
  have "dfs_frame g s s3"
    unfolding dfs_frame_def v3 f3 l3
    using sub2 P R K F NA f2 l2 cardD by auto
  moreover have "n \<in> d_visited s3" using v3 sub2 by auto
  ultimately show ?thesis using pren by simp
qed

lemma From_in_Nodes:
  assumes "\<forall>((u, v), e) \<in> set (dg_edges g). e_to e \<in> set (Nodes g)"
  shows "set (From g i) \<subseteq> set (Nodes g)"
  using assms by (auto simp: From_def)

lemma walk_total:
  assumes closed: "\<forall>((u, v), e) \<in> set (dg_edges g). e_to e \<in> set (Nodes g)"
    and perm: "\<forall>lt xs. set (srt lt xs) = set xs"
  shows "(d_visited s \<subseteq> set (Nodes g) \<longrightarrow> n \<in> set (Nodes g) \<longrightarrow> n \<notin> d_visited s \<longrightarrow>
            card (set (Nodes g) - d_visited s) \<le> k \<longrightarrow>
            (\<exists>s'. walk k srt nl g s n = Some s' \<and> dfs_frame g s s' \<and> n \<in> d_visited s' \<and>
                  n_Pre (cell (d_heap s') n) = d_first s))"
    and "(d_visited s \<subseteq> set (Nodes g) \<longrightarrow> set ns \<subseteq> set (Nodes g) \<longrightarrow>
            card (set (Nodes g) - d_visited s) \<le> k \<longrightarrow>
            (\<exists>s'. walk_each k srt nl g s ns = Some s' \<and> dfs_frame g s s' \<and> set ns \<subseteq> d_visited s'))"
  using closed perm
proof (induction k srt nl g s n and k srt nl g s ns rule: walk_walk_each.induct)
  case (1 srt nl g s n)
  show ?case
  proof (intro impI)
    assume "n \<in> set (Nodes g)" "n \<notin> d_visited s" "card (set (Nodes g) - d_visited s) \<le> 0"
    then have "n \<in> set (Nodes g) - d_visited s" "set (Nodes g) - d_visited s = {}" by auto
    then show "\<exists>s'. walk 0 srt nl g s n = Some s' \<and> dfs_frame g s s' \<and> n \<in> d_visited s' \<and>
                  n_Pre (cell (d_heap s') n) = d_first s"
      by simp
  qed
next
  case (2 k srt nl g s n)
  show ?case
  proof (intro impI)
    assume sub: "d_visited s \<subseteq> set (Nodes g)" and nn: "n \<in> set (Nodes g)"
      and nv: "n \<notin> d_visited s" and c: "card (set (Nodes g) - d_visited s) \<le> Suc k"
    define h1 where "h1 = (d_heap s)\<lparr>cell := (cell (d_heap s))(n := (cell (d_heap s) n)\<lparr>n_Pre := d_first s\<rparr>)\<rparr>"
    define s1 where "s1 = s\<lparr>d_heap := h1, d_first := d_first s + 1, d_visited := insert n (d_visited s)\<rparr>"
    define succs where "succs = sortByDOTID srt nl h1 (From g (n_id (cell h1 n)))"
    have sub1: "d_visited s1 \<subseteq> set (Nodes g)" using sub nn by (simp add: s1_def)
    have "set succs = set (From g (n_id (cell h1 n)))"
      using "2.prems"(2) by (simp add: succs_def sortByDOTID_def)
    then have succs: "set succs \<subseteq> set (Nodes g)"
      using From_in_Nodes [OF "2.prems"(1)] by simp
    have "set (Nodes g) - d_visited s = insert n (set (Nodes g) - d_visited s1)"
      using nn nv by (auto simp: s1_def)
    moreover have "n \<notin> set (Nodes g) - d_visited s1" by (simp add: s1_def)
    ultimately have "card (set (Nodes g) - d_visited s) = Suc (card (set (Nodes g) - d_visited s1))"
      by simp
    with c have c1: "card (set (Nodes g) - d_visited s1) \<le> k" by simp
    have IH: "d_visited s1 \<subseteq> set (Nodes g) \<longrightarrow> set succs \<subseteq> set (Nodes g) \<longrightarrow>
        card (set (Nodes g) - d_visited s1) \<le> k \<longrightarrow>
        (\<exists>s'. walk_each k srt nl g s1 succs = Some s' \<and> dfs_frame g s1 s' \<and> set succs \<subseteq> d_visited s')"
      unfolding succs_def s1_def h1_def
      by (rule "2.IH" [OF refl refl refl "2.prems"])
    from IH sub1 succs c1
    obtain s2 where s2: "walk_each k srt nl g s1 succs = Some s2" "dfs_frame g s1 s2"
      by blast
    define s3 where "s3 = s2\<lparr>d_heap := (d_heap s2)\<lparr>cell := (cell (d_heap s2))(n := (cell (d_heap s2) n)\<lparr>n_RevPost := d_last s2\<rparr>)\<rparr>,
                     d_last := d_last s2 - 1\<rparr>"
    have w: "walk (Suc k) srt nl g s n = Some s3"
      using s2(1) unfolding succs_def s1_def h1_def s3_def by (simp add: Let_def)
    have "dfs_frame g s s3 \<and> n \<in> d_visited s3 \<and> n_Pre (cell (d_heap s3) n) = d_first s"
      by (rule dfs_frame_walk_step [OF sub nv nn _ s2(2) s3_def]) (simp add: s1_def h1_def)
    with w show "\<exists>s'. walk (Suc k) srt nl g s n = Some s' \<and> dfs_frame g s s' \<and> n \<in> d_visited s' \<and>
                  n_Pre (cell (d_heap s') n) = d_first s"
      by blast
  qed
next
  case (3 k srt nl g s)
  show ?case by (simp add: dfs_frame_refl)
next
  case (4 k srt nl g s succ succs)
  show ?case
  proof (intro impI)
    assume sub: "d_visited s \<subseteq> set (Nodes g)" and ns: "set (succ # succs) \<subseteq> set (Nodes g)"
      and c: "card (set (Nodes g) - d_visited s) \<le> k"
    show "\<exists>s'. walk_each k srt nl g s (succ # succs) = Some s' \<and> dfs_frame g s s' \<and>
               set (succ # succs) \<subseteq> d_visited s'"
    proof (cases "succ \<in> d_visited s")
      case True
      from "4.IH"(3) [OF _ "4.prems"] True sub ns c
      obtain s' where "walk_each k srt nl g s succs = Some s'" "dfs_frame g s s'" "set succs \<subseteq> d_visited s'"
        by auto
      moreover from this(2) True have "succ \<in> d_visited s'" by (auto simp: dfs_frame_def)
      ultimately show ?thesis using True by simp
    next
      case False
      from "4.IH"(1) [OF False "4.prems"] False sub ns c
      obtain s1 where s1: "walk k srt nl g s succ = Some s1" "dfs_frame g s s1" "succ \<in> d_visited s1"
        by auto
      have sub1: "d_visited s1 \<subseteq> set (Nodes g)" "d_visited s \<subseteq> d_visited s1"
        using s1(2) by (simp_all add: dfs_frame_def)
      have "card (set (Nodes g) - d_visited s1) \<le> card (set (Nodes g) - d_visited s)"
        by (rule card_mono) (use sub1 in auto)
      with c have c1: "card (set (Nodes g) - d_visited s1) \<le> k" by simp
      from "4.IH"(2) [OF False s1(1) "4.prems"] sub1 ns c1
      obtain s2 where s2: "walk_each k srt nl g s1 succs = Some s2" "dfs_frame g s1 s2" "set succs \<subseteq> d_visited s2"
        by auto
      have "dfs_frame g s s2" using s1(2) s2(2) by (rule dfs_frame_trans)
      moreover have "succ \<in> d_visited s2" using s1(3) s2(2) by (auto simp: dfs_frame_def)
      ultimately show ?thesis using False s1(1) s2(1,3) by simp
    qed
  qed
qed


text \<open>
  C3: when the entry is a node of the graph, every successor listed by the embedded
  graph is a node of the graph, no node object is filed twice, and \<open>sort.Slice\<close> returns
  the elements it was given, then \<open>InitDFSOrder\<close> returns as soon as the fuel is at least
  the number of nodes; the pre-order numbers of the nodes are then exactly
  \<open>0, ..., n - 1\<close>, one node each, and so are the reverse post-order numbers; the entry
  has pre-order number \<open>0\<close>; nothing but the two numbers of the graph's nodes is changed.
\<close>

theorem InitDFSOrder_numbers_every_node:
  assumes entry: "g_entry g = Some e" and mem: "e \<in> set (Nodes g)"
    and closed: "\<forall>((u, v), ed) \<in> set (dg_edges g). e_to ed \<in> set (Nodes g)"
    and dist: "distinct (Nodes g)"
    and perm: "\<forall>lt xs. set (srt lt xs) = set xs"
    and fuel: "length (Nodes g) \<le> fuel"
  shows "\<exists>h'. InitDFSOrder fuel srt nl h g = Some (Inr h') \<and>
           (\<lambda>a. n_Pre (cell h' a)) ` set (Nodes g) = {0 ..< int (length (Nodes g))} \<and>
           (\<lambda>a. n_RevPost (cell h' a)) ` set (Nodes g) = {0 ..< int (length (Nodes g))} \<and>
           inj_on (\<lambda>a. n_Pre (cell h' a)) (set (Nodes g)) \<and>
           inj_on (\<lambda>a. n_RevPost (cell h' a)) (set (Nodes g)) \<and>
           n_Pre (cell h' e) = 0 \<and>
           (\<forall>a. a \<notin> set (Nodes g) \<longrightarrow> cell h' a = cell h a) \<and>
           (\<forall>a. cell h' a = (cell h a)\<lparr>n_Pre := n_Pre (cell h' a),
                                         n_RevPost := n_RevPost (cell h' a)\<rparr>) \<and>
           next_addr h' = next_addr h"
proof -
  let ?N = "set (Nodes g)"
  define s0 where "s0 = \<lparr>d_heap = h, d_visited = {}, d_first = 0,
                          d_last = int (length (Nodes g)) - 1\<rparr>"
  have cardN: "card ?N = length (Nodes g)" using dist by (rule distinct_card)
  have v0: "d_visited s0 = {}" by (simp add: s0_def)
  have c0: "card (?N - d_visited s0) \<le> fuel" using fuel cardN v0 by simp
  from walk_total(1) [OF closed perm, of s0 e fuel nl] mem v0 c0
  obtain s1 where s1: "walk fuel srt nl g s0 e = Some s1" "dfs_frame g s0 s1" "e \<in> d_visited s1"
      "n_Pre (cell (d_heap s1) e) = d_first s0"
    by auto
  define ns where "ns = sortByDOTID srt nl (d_heap s1) (Nodes g)"
  have ns: "set ns = ?N" using perm by (simp add: ns_def sortByDOTID_def)
  have sub1: "d_visited s1 \<subseteq> ?N" using s1(2) by (simp add: dfs_frame_def)
  have "card (?N - d_visited s1) \<le> card ?N" by (rule card_mono) auto
  then have c1: "card (?N - d_visited s1) \<le> fuel" using fuel cardN by simp
  from walk_total(2) [OF closed perm, of s1 ns fuel nl] sub1 ns c1
  obtain s2 where s2: "walk_each fuel srt nl g s1 ns = Some s2" "dfs_frame g s1 s2" "set ns \<subseteq> d_visited s2"
    by auto
  have fr: "dfs_frame g s0 s2" using s1(2) s2(2) by (rule dfs_frame_trans)
  have v2: "d_visited s2 = ?N" using fr s2(3) ns by (auto simp: dfs_frame_def)
  have run: "InitDFSOrder fuel srt nl h g = Some (Inr (d_heap s2))"
    using entry s1(1) s2(1) by (simp add: InitDFSOrder_def s0_def [symmetric] ns_def [symmetric])
  have D: "d_visited s2 - d_visited s0 = ?N" using v2 v0 by simp
  have f2: "d_first s2 = int (length (Nodes g))"
    using fr unfolding dfs_frame_def D by (simp add: s0_def cardN)
  have l2: "d_last s2 = - 1"
    using fr unfolding dfs_frame_def D by (simp add: s0_def cardN)
  have P: "(\<lambda>a. n_Pre (cell (d_heap s2) a)) ` ?N = {0 ..< int (length (Nodes g))}"
    using fr unfolding dfs_frame_def D f2 by (simp add: s0_def)
  have "(\<lambda>a. n_RevPost (cell (d_heap s2) a)) ` ?N = {- 1 <.. int (length (Nodes g)) - 1}"
    using fr unfolding dfs_frame_def D l2 by (simp add: s0_def)
  moreover have "{- 1 <.. int (length (Nodes g)) - 1} = {0 ..< int (length (Nodes g))}" by auto
  ultimately have R: "(\<lambda>a. n_RevPost (cell (d_heap s2) a)) ` ?N = {0 ..< int (length (Nodes g))}"
    by simp
  have cardI: "card {0 ..< int (length (Nodes g))} = card ?N" unfolding cardN by simp
  have "card ((\<lambda>a. n_Pre (cell (d_heap s2) a)) ` ?N) = card ?N" by (simp only: P cardI)
  then have iP: "inj_on (\<lambda>a. n_Pre (cell (d_heap s2) a)) ?N"
    by (intro eq_card_imp_inj_on) simp_all
  have "card ((\<lambda>a. n_RevPost (cell (d_heap s2) a)) ` ?N) = card ?N" by (simp only: R cardI)
  then have iR: "inj_on (\<lambda>a. n_RevPost (cell (d_heap s2) a)) ?N"
    by (intro eq_card_imp_inj_on) simp_all
  have "e \<notin> d_visited s2 - d_visited s1" using s1(3) by simp
  then have "cell (d_heap s2) e = cell (d_heap s1) e"
    using s2(2) unfolding dfs_frame_def by blast
  then have E: "n_Pre (cell (d_heap s2) e) = 0" using s1(4) by (simp add: s0_def)
  have K: "\<forall>a. a \<notin> ?N \<longrightarrow> cell (d_heap s2) a = cell h a"
    using fr unfolding dfs_frame_def D by (simp add: s0_def)
  have F: "\<forall>a. cell (d_heap s2) a = (cell h a)\<lparr>n_Pre := n_Pre (cell (d_heap s2) a),
                                         n_RevPost := n_RevPost (cell (d_heap s2) a)\<rparr>"
    using fr unfolding dfs_frame_def by (simp add: s0_def)
  have NA: "next_addr (d_heap s2) = next_addr h"
    using fr unfolding dfs_frame_def by (simp add: s0_def)
  show ?thesis
    using run P R iP iR E K F NA by blast
qed

lemma set_insert_by: "set (insert_by lt x xs) = insert x (set xs)"
  by (induction xs) auto

lemma set_sort_Slice0: "set (sort_Slice0 lt xs) = set xs"
  by (induction xs) (simp_all add: sort_Slice0_def set_insert_by)

theorem InitDFSOrder_numbers_every_node_witness:
  "g_entry (branch_graph [] []) = Some 0 \<and> 0 \<in> set (Nodes (branch_graph [] [])) \<and>
   map (e_to \<circ> snd) (dg_edges (branch_graph [] [])) = [2, 1] \<and>
   Nodes (branch_graph [] []) = [0, 1, 2] \<and>
   distinct (Nodes (branch_graph [] [])) \<and>
   (\<forall>lt xs. set (sort_Slice0 lt xs) = set xs) \<and>
   length (Nodes (branch_graph [] [])) \<le> 3 \<and>
   (\<exists>h'. InitDFSOrder 3 sort_Slice0 Less0 heap3 (branch_graph [] []) = Some (Inr h') \<and>
      map (\<lambda>a. (n_Pre (cell h' a), n_RevPost (cell h' a))) (Nodes (branch_graph [] []))
        = [(0, 0), (1, 2), (2, 1)] \<and>
      (\<lambda>a. n_Pre (cell h' a)) ` set (Nodes (branch_graph [] [])) = {0 ..< 3} \<and>
      (\<lambda>a. n_RevPost (cell h' a)) ` set (Nodes (branch_graph [] [])) = {0 ..< 3})"
proof -
  have a: "g_entry (branch_graph [] []) = Some 0" by (simp add: branch_graph_def)
  have b: "0 \<in> set (Nodes (branch_graph [] []))" by (simp add: branch_graph_def Nodes_def)
  have c: "\<forall>((u, v), ed) \<in> set (dg_edges (branch_graph [] [])). e_to ed \<in> set (Nodes (branch_graph [] []))"
    by (simp add: branch_graph_def Nodes_def)
  have d: "distinct (Nodes (branch_graph [] []))" by (simp add: branch_graph_def Nodes_def)
  have e: "\<forall>lt xs. set (sort_Slice0 lt xs) = set xs" by (simp add: set_sort_Slice0)
  have f: "length (Nodes (branch_graph [] [])) \<le> 3" by (simp add: branch_graph_def Nodes_def)
  have n: "int (length (Nodes (branch_graph [] []))) = 3" by (simp add: branch_graph_def Nodes_def)
  have run: "case InitDFSOrder 3 sort_Slice0 Less0 heap3 (branch_graph [] []) of
               Some (Inr h') \<Rightarrow>
                 map (\<lambda>a. (n_Pre (cell h' a), n_RevPost (cell h' a))) (Nodes (branch_graph [] []))
                   = [(0, 0), (1, 2), (2, 1)]
             | _ \<Rightarrow> False"
    by (simp add: InitDFSOrder_def numeral_3_eq_3 Let_def sortByDOTID_def sort_Slice0_def From_def
        Nodes_def branch_graph_def heap3_def mk_node_def DOTID_def Less0_def)
  from InitDFSOrder_numbers_every_node [OF a b c d e f, of Less0 heap3] n run
  show ?thesis using a b d e f
    by (auto simp add: branch_graph_def Nodes_def split: option.splits sum.splits)
qed


end
